theory Spec2Isabelle
  imports Complex_Main "HOL-Library.Multiset"
begin

section \<open>Data model (app/models/job.py, app/services/detector.py, app/services/qr_detector.py)\<close>

text \<open>
  A finite Python float is modelled as the \<^typ>\<open>real\<close> number it denotes, a Python int as
  an \<^typ>\<open>int\<close>, a path or an identifier as a \<^typ>\<open>string\<close>. The float32 arithmetic
  of \<open>compute_iou\<close> and the double edge lengths of the QR filter with their quotient are
  rounded operations, which are arguments of the model; the other quotients and products
  are computed exactly (see the sections that use them). A \<open>datetime\<close> is a number of
  clock ticks; \<open>datetime.utcnow()\<close> is passed to the operation that reads it.
\<close>

type_synonym datetime = nat

datatype JobStatus = pending | running | completed | failed

text \<open>
  \<open>DetectionBox\<close> (detector.py) and \<open>DetectionRecord\<close> (models/job.py) have the same
  three fields; \<open>process_job\<close> copies one into the other field by field.
\<close>

record DetectionBox =
  label :: string
  confidence :: real
  bbox :: "int \<times> int \<times> int \<times> int"

type_synonym DetectionRecord = DetectionBox

text \<open>
  \<open>QRDetection\<close> (qr_detector.py) and \<open>QRRecord\<close> (models/job.py): the fields
  \<open>text\<close> (here \<open>qr_text\<close>) and \<open>polygon\<close>. The text is a Python \<open>str\<close>, the
  list of its code points.
\<close>

type_synonym Point = "int \<times> int"

type_synonym pystr = "nat list"

record QRDetection =
  qr_text :: pystr
  polygon :: "Point list"

type_synonym QRRecord = QRDetection

record PageResult =
  page_name :: string
  source_path :: string
  annotated_path :: "string option"
  heatmap_path :: "string option"
  detections :: "DetectionRecord list"
  qr_codes :: "QRRecord list"
  requires_review :: bool

record JobResult =
  job_id :: string
  status :: JobStatus
  source_files :: "string list"
  pages :: "PageResult list"
  summary :: "string \<rightharpoonup> int"
  created_at :: datetime
  completed_at :: "datetime option"
  error :: "string option"

text \<open>Exceptions of the program, as values.\<close>

datatype exn =
    KeyError string
  | RuntimeError string
  | ValueError string
  | Raised string

text \<open>\<open>str(exc)\<close>: the message; for a \<open>KeyError\<close> the repr of the key.\<close>

fun str_exn :: "exn \<Rightarrow> string" where
  "str_exn (KeyError k) = [CHR 0x27] @ k @ [CHR 0x27]"
| "str_exn (RuntimeError m) = m"
| "str_exn (ValueError m) = m"
| "str_exn (Raised m) = m"

section \<open>JobManager (app/services/job_manager.py)\<close>

text \<open>
  The registry \<open>_jobs\<close> is a dict from job id to the job object. Every method runs under
  the one lock, so each is one atomic step on the dict; the model is sequential.
  \<open>self._jobs[job_id]\<close> raises \<open>KeyError\<close> on an unknown id.
\<close>

type_synonym JobManager = "string \<rightharpoonup> JobResult"

definition save :: "JobManager \<Rightarrow> JobResult \<Rightarrow> JobManager" where
  "save jobs job = jobs(job_id job \<mapsto> job)"

definition get :: "JobManager \<Rightarrow> string \<Rightarrow> JobResult option" where
  "get jobs jid = jobs jid"

definition mark_running :: "JobManager \<Rightarrow> string \<Rightarrow> exn + JobManager" where
  "mark_running jobs jid =
     (case jobs jid of
        None \<Rightarrow> Inl (KeyError jid)
      | Some job \<Rightarrow> Inr (jobs(jid \<mapsto> job\<lparr>status := running\<rparr>)))"

definition mark_completed :: "JobManager \<Rightarrow> string \<Rightarrow> datetime \<Rightarrow> exn + JobManager" where
  "mark_completed jobs jid now =
     (case jobs jid of
        None \<Rightarrow> Inl (KeyError jid)
      | Some job \<Rightarrow> Inr (jobs(jid \<mapsto> job\<lparr>status := completed, completed_at := Some now\<rparr>)))"

definition mark_failed :: "JobManager \<Rightarrow> string \<Rightarrow> string \<Rightarrow> datetime \<Rightarrow> exn + JobManager" where
  "mark_failed jobs jid err now =
     (case jobs jid of
        None \<Rightarrow> Inl (KeyError jid)
      | Some job \<Rightarrow>
          Inr (jobs(jid \<mapsto> job\<lparr>status := failed, error := Some err, completed_at := Some now\<rparr>)))"

text \<open>
  A sequence of transition calls on one job id: each call is one of the three
  \<open>mark_*\<close> methods with its arguments; the sequence stops at the first exception.
\<close>

datatype transition =
    Mark_running
  | Mark_completed datetime
  | Mark_failed string datetime

fun apply_transition :: "JobManager \<Rightarrow> string \<Rightarrow> transition \<Rightarrow> exn + JobManager" where
  "apply_transition jobs jid Mark_running = mark_running jobs jid"
| "apply_transition jobs jid (Mark_completed now) = mark_completed jobs jid now"
| "apply_transition jobs jid (Mark_failed err now) = mark_failed jobs jid err now"

fun run_transitions :: "JobManager \<Rightarrow> string \<Rightarrow> transition list \<Rightarrow> exn + JobManager" where
  "run_transitions jobs jid [] = Inr jobs"
| "run_transitions jobs jid (t # ts) =
     (case apply_transition jobs jid t of
        Inl e \<Rightarrow> Inl e
      | Inr jobs' \<Rightarrow> run_transitions jobs' jid ts)"

fun target_of :: "transition \<Rightarrow> JobStatus" where
  "target_of Mark_running = running"
| "target_of (Mark_completed now) = completed"
| "target_of (Mark_failed err now) = failed"

fun stamp_of :: "transition \<Rightarrow> datetime option" where
  "stamp_of Mark_running = None"
| "stamp_of (Mark_completed now) = Some now"
| "stamp_of (Mark_failed err now) = Some now"

text \<open>The job a fresh upload registers (api/routes.py builds it with the defaults).\<close>

definition new_job :: "string \<Rightarrow> datetime \<Rightarrow> JobResult" where
  "new_job jid now =
     \<lparr>job_id = jid, status = pending, source_files = [], pages = [],
      summary = [''signature'' \<mapsto> 0, ''stamp'' \<mapsto> 0, ''qr'' \<mapsto> 0],
      created_at = now, completed_at = None, error = None\<rparr>"

section \<open>Settings (app/core/config.py)\<close>

text \<open>
  The fields of \<open>Settings\<close> that the decision code reads. The functions below take the
  settings object as an argument; \<open>settings\<close> is the instance the module creates, with
  the class defaults.
\<close>

record Settings =
  enable_heatmap :: bool
  heatmap_kernel :: int
  heatmap_sigma_scale :: real
  low_conf_threshold :: real
  high_conf_threshold :: real

definition settings :: Settings where
  "settings =
     \<lparr>enable_heatmap = True, heatmap_kernel = 51, heatmap_sigma_scale = 2 / 10,
      low_conf_threshold = 5 / 10, high_conf_threshold = 8 / 10\<rparr>"

section \<open>Overlap suppression (app/services/pipeline.py)\<close>

type_synonym box = "int \<times> int \<times> int \<times> int"

fun bbox_area :: "box \<Rightarrow> int" where
  "bbox_area (x1, y1, x2, y2) = max 0 (x2 - x1) * max 0 (y2 - y1)"

fun intersection_area :: "box \<Rightarrow> box \<Rightarrow> int" where
  "intersection_area (ax1, ay1, ax2, ay2) (bx1, by1, bx2, by2) =
     (let inter_x1 = max ax1 bx1;
          inter_y1 = max ay1 by1;
          inter_x2 = min ax2 bx2;
          inter_y2 = min ay2 by2
      in if inter_x2 \<le> inter_x1 \<or> inter_y2 \<le> inter_y1 then 0
         else (inter_x2 - inter_x1) * (inter_y2 - inter_y1))"

text \<open>
  The loop of \<open>_signature_inside_stamp\<close> over the stamps. The two divisions are true
  divisions of Python ints. The first has the non-zero \<open>sig_area\<close> as its denominator;
  the second cannot raise either, lemma \<open>iou_denominator_pos\<close> below.
\<close>

fun inside_stamp_loop :: "box \<Rightarrow> int \<Rightarrow> DetectionBox list \<Rightarrow> bool" where
  "inside_stamp_loop sig_box sig_area [] = False"
| "inside_stamp_loop sig_box sig_area (stamp # stamps) =
     (let stamp_box = bbox stamp;
          inter_area = intersection_area sig_box stamp_box
      in if inter_area = 0 then inside_stamp_loop sig_box sig_area stamps
         else
           let coverage = real_of_int inter_area / real_of_int sig_area
           in if coverage \<ge> 9 / 10 then True
              else
                let stamp_area = bbox_area stamp_box
                in if stamp_area = 0 then inside_stamp_loop sig_box sig_area stamps
                   else
                     let iou = real_of_int inter_area /
                                 real_of_int (sig_area + stamp_area - inter_area)
                     in if iou \<ge> 6 / 10 then True
                        else inside_stamp_loop sig_box sig_area stamps)"

definition signature_inside_stamp :: "DetectionBox \<Rightarrow> DetectionBox list \<Rightarrow> bool" where
  "signature_inside_stamp signature stamps =
     (let sig_box = bbox signature;
          sig_area = bbox_area sig_box
      in if sig_area = 0 then False else inside_stamp_loop sig_box sig_area stamps)"

fun overlap_loop :: "DetectionBox list \<Rightarrow> DetectionBox list \<Rightarrow> DetectionBox list \<Rightarrow> DetectionBox list" where
  "overlap_loop stamps filtered [] = filtered"
| "overlap_loop stamps filtered (det # dets) =
     (if label det \<noteq> ''signature'' then overlap_loop stamps (filtered @ [det]) dets
      else if signature_inside_stamp det stamps then overlap_loop stamps filtered dets
      else overlap_loop stamps (filtered @ [det]) dets)"

definition filter_signature_overlaps :: "DetectionBox list \<Rightarrow> DetectionBox list" where
  "filter_signature_overlaps dets =
     (if dets = [] then dets
      else
        let stamps = filter (\<lambda>det. label det = ''stamp'') dets
        in if stamps = [] then dets else overlap_loop stamps [] dets)"

text \<open>
  The suppression rule in the words of the specification: the share of the signature
  covered by the stamp, and the intersection over union of the two boxes, which is 0
  when the boxes do not overlap or one of them has no area. A signature without area
  has no coverage share.
\<close>

definition coverage_spec :: "DetectionBox \<Rightarrow> DetectionBox \<Rightarrow> real" where
  "coverage_spec S T =
     (if bbox_area (bbox S) = 0 then 0
      else real_of_int (intersection_area (bbox S) (bbox T)) / real_of_int (bbox_area (bbox S)))"

definition iou_spec :: "DetectionBox \<Rightarrow> DetectionBox \<Rightarrow> real" where
  "iou_spec S T =
     (if intersection_area (bbox S) (bbox T) = 0 \<or> bbox_area (bbox S) = 0 \<or> bbox_area (bbox T) = 0
      then 0
      else real_of_int (intersection_area (bbox S) (bbox T)) /
             real_of_int (bbox_area (bbox S) + bbox_area (bbox T) - intersection_area (bbox S) (bbox T)))"

definition suppressed_spec :: "DetectionBox list \<Rightarrow> DetectionBox \<Rightarrow> bool" where
  "suppressed_spec dets S =
     (label S = ''signature'' \<and>
      (\<exists>T \<in> set dets. label T = ''stamp'' \<and> (coverage_spec S T \<ge> 9 / 10 \<or> iou_spec S T \<ge> 6 / 10)))"

section \<open>Review classification (app/services/pipeline.py)\<close>

fun review_loop :: "real \<Rightarrow> real \<Rightarrow> DetectionBox list \<Rightarrow> bool" where
  "review_loop review_low review_high [] = False"
| "review_loop review_low review_high (det # dets) =
     (if confidence det < review_low then True
      else if review_low \<le> confidence det \<and> confidence det < review_high then True
      else review_loop review_low review_high dets)"

definition analyze_review_need :: "Settings \<Rightarrow> DetectionBox list \<Rightarrow> QRDetection list \<Rightarrow> bool" where
  "analyze_review_need s dets qr_hits =
     (if dets = [] \<and> qr_hits = [] then False
      else
        let review_low = max 0 (low_conf_threshold s * (6 / 10));
            review_high = max review_low (high_conf_threshold s * (6 / 10))
        in review_loop review_low review_high dets)"

text \<open>The two bands in the words of the specification.\<close>

definition review_low_spec :: "Settings \<Rightarrow> real" where
  "review_low_spec s = (6 / 10) * low_conf_threshold s"

definition review_high_spec :: "Settings \<Rightarrow> real" where
  "review_high_spec s = max (review_low_spec s) ((6 / 10) * high_conf_threshold s)"

section \<open>QR candidate filter (app/services/qr_detector.py, qr_detect.py)\<close>

definition MIN_TEXT_LENGTH :: nat where "MIN_TEXT_LENGTH = 4"
definition MIN_QR_AREA_RATIO :: real where "MIN_QR_AREA_RATIO = 1 / 1000"
definition MAX_QR_AREA_RATIO :: real where "MAX_QR_AREA_RATIO = 3 / 100"
definition MIN_SIDE_PX :: int where "MIN_SIDE_PX = 48"
definition ASPECT_RATIO_MIN :: real where "ASPECT_RATIO_MIN = 7 / 10"
definition ASPECT_RATIO_MAX :: real where "ASPECT_RATIO_MAX = 13 / 10"
definition EDGE_RATIO_MAX :: real where "EDGE_RATIO_MAX = 125 / 100"

text \<open>
  A decoded text is a Python \<open>str\<close>: the list of its code points (\<^typ>\<open>pystr\<close>), and
  \<open>len\<close> counts code points. \<open>str.strip()\<close> removes the leading and the trailing
  whitespace, the code points for which \<open>str.isspace\<close> holds.
\<close>

definition isspace :: "nat \<Rightarrow> bool" where
  "isspace c =
     (c \<in> set [9, 10, 11, 12, 13, 28, 29, 30, 31, 32, 133, 160, 5760,
                8192, 8193, 8194, 8195, 8196, 8197, 8198, 8199, 8200, 8201, 8202,
                8232, 8233, 8239, 8287, 12288])"

definition strip :: "pystr \<Rightarrow> pystr" where
  "strip s = rev (dropWhile isspace (rev (dropWhile isspace s)))"

text \<open>\<open>min\<close> and \<open>max\<close> of a Python list raise \<open>ValueError\<close> on the empty list.\<close>

fun py_min :: "'a::linorder list \<Rightarrow> exn + 'a" where
  "py_min [] = Inl (ValueError ''min() arg is an empty sequence'')"
| "py_min (x # xs) = Inr (fold min xs x)"

fun py_max :: "'a::linorder list \<Rightarrow> exn + 'a" where
  "py_max [] = Inl (ValueError ''max() arg is an empty sequence'')"
| "py_max (x # xs) = Inr (fold max xs x)"

text \<open>
  Floating point. The length of an edge is the double that the library returns,
  \<open>np.hypot\<close> in the backend and \<open>math.hypot\<close> in the script, and the ratio of two
  lengths is the double that the division of two doubles returns. The model reads a
  finite double as the real number it denotes and takes these three operations as the
  machine has them, the record \<open>float_ops\<close>: \<open>np_hypot fp a b\<close> and \<open>math_hypot fp a b\<close>
  are the doubles returned for the ints \<open>a\<close> and \<open>b\<close>, and \<open>truediv fp x y\<close> is the
  double \<open>x / y\<close>. Neither is the exact value: a square root and a quotient are rounded.

  The two other quotients of the filter divide one int by another and compare the
  double with a decimal constant. The division of two ints is rounded correctly, and so
  is the constant, so that the comparison decides as the exact quotient and the exact
  constant do, for every image below \<open>10^14\<close> pixels; there the model divides exactly.
\<close>

record float_ops =
  np_hypot :: "int \<Rightarrow> int \<Rightarrow> real"
  math_hypot :: "int \<Rightarrow> int \<Rightarrow> real"
  truediv :: "real \<Rightarrow> real \<Rightarrow> real"

text \<open>
  The edge from each point of the quad to the next one, the last back to the first,
  measured by \<open>hyp\<close>.
\<close>

definition edge_lengths :: "(int \<Rightarrow> int \<Rightarrow> real) \<Rightarrow> Point list \<Rightarrow> real list" where
  "edge_lengths hyp quad =
     map (\<lambda>idx. case (quad ! idx, quad ! ((idx + 1) mod length quad)) of
                  ((x1, y1), (x2, y2)) \<Rightarrow> hyp (x1 - x2) (y1 - y2))
         [0..<length quad]"

text \<open>
  The body of the loop of \<open>QRDetector._filter\<close> for one candidate: \<open>Inr False\<close> is
  \<open>continue\<close>, \<open>Inr True\<close> reaches the two \<open>append\<close>s.
\<close>

definition filter_body :: "float_ops \<Rightarrow> int \<Rightarrow> pystr \<Rightarrow> Point list \<Rightarrow> exn + bool" where
  "filter_body fp image_area txt quad =
     (if txt = [] \<or> length (strip txt) < MIN_TEXT_LENGTH then Inr False
      else
        let xs = map fst quad; ys = map snd quad
        in case py_min xs of Inl e \<Rightarrow> Inl e | Inr min_x \<Rightarrow>
           case py_max xs of Inl e \<Rightarrow> Inl e | Inr max_x \<Rightarrow>
           case py_min ys of Inl e \<Rightarrow> Inl e | Inr min_y \<Rightarrow>
           case py_max ys of Inl e \<Rightarrow> Inl e | Inr max_y \<Rightarrow>
             let width_px = max_x - min_x; height_px = max_y - min_y
             in if width_px \<le> 0 \<or> height_px \<le> 0 then Inr False
                else if width_px < MIN_SIDE_PX \<or> height_px < MIN_SIDE_PX then Inr False
                else
                  let area_ratio = real_of_int (width_px * height_px) / real_of_int image_area
                  in if area_ratio < MIN_QR_AREA_RATIO \<or> area_ratio > MAX_QR_AREA_RATIO
                     then Inr False
                     else
                       let aspect_ratio =
                             (if height_px \<noteq> 0
                              then real_of_int width_px / real_of_int height_px else 0)
                       in if \<not> (ASPECT_RATIO_MIN \<le> aspect_ratio \<and> aspect_ratio \<le> ASPECT_RATIO_MAX)
                          then Inr False
                          else
                            let edges = edge_lengths (np_hypot fp) quad
                            in if edges = [] then Inr False
                               else
                                 case py_min edges of Inl e \<Rightarrow> Inl e | Inr min_edge \<Rightarrow>
                                 case py_max edges of Inl e \<Rightarrow> Inl e | Inr max_edge \<Rightarrow>
                                   if min_edge \<le> 0 \<or>
                                      truediv fp max_edge min_edge > EDGE_RATIO_MAX
                                   then Inr False
                                   else Inr True)"


text \<open>
  The loop over \<open>zip(decoded, boxes)\<close> with the two result lists; an exception of the body
  ends it.
\<close>

fun filter_loop ::
  "(pystr \<Rightarrow> Point list \<Rightarrow> exn + bool) \<Rightarrow> (pystr \<times> Point list) list \<Rightarrow>
   pystr list \<Rightarrow> Point list list \<Rightarrow> exn + (pystr list \<times> Point list list)" where
  "filter_loop body [] filtered_data filtered_boxes = Inr (filtered_data, filtered_boxes)"
| "filter_loop body ((txt, quad) # rest) filtered_data filtered_boxes =
     (case body txt quad of
        Inl e \<Rightarrow> Inl e
      | Inr False \<Rightarrow> filter_loop body rest filtered_data filtered_boxes
      | Inr True \<Rightarrow> filter_loop body rest (filtered_data @ [txt]) (filtered_boxes @ [quad]))"

text \<open>\<open>image_shape[:2]\<close> is the pair (height, width) of the image array.\<close>

definition QRDetector_filter ::
  "float_ops \<Rightarrow> pystr list \<Rightarrow> Point list list \<Rightarrow> nat \<times> nat \<Rightarrow>
   exn + (pystr list \<times> Point list list)" where
  "QRDetector_filter fp decoded boxes image_shape =
     (if decoded = [] \<or> boxes = [] then Inr ([], [])
      else
        case image_shape of (height, width) \<Rightarrow>
          let image_area = max 1 (int height * int width)
          in filter_loop (filter_body fp image_area) (zip decoded boxes) [] [])"


text \<open>
  The five rules in the words of the specification, for a quad with at least one point.
  A ratio whose denominator is zero satisfies no bound: the rule on the share of the
  image area asks for an image with area, the rule on the edges for a shortest edge
  with length. \<open>size_rules\<close> are the rules 1 to 4. \<open>quad_edges len quad\<close> are the edges of
  the quad in order, from each point to the next and from the last back to the first,
  each measured by \<open>len\<close> on the differences of the coordinates. In \<open>qr_rules_spec\<close> the
  fifth rule is on the exact lengths of the edges, \<open>euclid\<close>.
\<close>

definition width_px :: "Point list \<Rightarrow> int" where
  "width_px quad = Max (set (map fst quad)) - Min (set (map fst quad))"

definition height_px :: "Point list \<Rightarrow> int" where
  "height_px quad = Max (set (map snd quad)) - Min (set (map snd quad))"

definition area_ratio_spec :: "nat \<Rightarrow> nat \<Rightarrow> Point list \<Rightarrow> real" where
  "area_ratio_spec image_height image_width quad =
     real_of_int (width_px quad * height_px quad) / (real image_width * real image_height)"

definition size_rules :: "nat \<Rightarrow> nat \<Rightarrow> pystr \<Rightarrow> Point list \<Rightarrow> bool" where
  "size_rules image_height image_width txt quad =
     (length (strip txt) \<ge> 4 \<and>
      width_px quad \<ge> 48 \<and> height_px quad \<ge> 48 \<and>
      0 < image_width * image_height \<and>
      1 / 1000 \<le> area_ratio_spec image_height image_width quad \<and>
      area_ratio_spec image_height image_width quad \<le> 3 / 100 \<and>
      7 / 10 \<le> real_of_int (width_px quad) / real_of_int (height_px quad) \<and>
      real_of_int (width_px quad) / real_of_int (height_px quad) \<le> 13 / 10)"

definition euclid :: "int \<Rightarrow> int \<Rightarrow> real" where
  "euclid a b = sqrt ((real_of_int a)\<^sup>2 + (real_of_int b)\<^sup>2)"

definition quad_edges :: "(int \<Rightarrow> int \<Rightarrow> real) \<Rightarrow> Point list \<Rightarrow> real list" where
  "quad_edges len quad =
     map (\<lambda>((x1, y1), (x2, y2)). len (x1 - x2) (y1 - y2)) (zip quad (rotate1 quad))"

definition min_edge :: "Point list \<Rightarrow> real" where
  "min_edge quad = Min (set (quad_edges euclid quad))"

definition max_edge :: "Point list \<Rightarrow> real" where
  "max_edge quad = Max (set (quad_edges euclid quad))"


text \<open>
  The fifth rule on the doubles: the lengths that \<open>hyp\<close> returns for the edges, and the
  quotient \<open>dv\<close> of the longest by the shortest.
\<close>

definition float_min_edge :: "(int \<Rightarrow> int \<Rightarrow> real) \<Rightarrow> Point list \<Rightarrow> real" where
  "float_min_edge hyp quad = Min (set (quad_edges hyp quad))"

definition float_max_edge :: "(int \<Rightarrow> int \<Rightarrow> real) \<Rightarrow> Point list \<Rightarrow> real" where
  "float_max_edge hyp quad = Max (set (quad_edges hyp quad))"

definition qr_rules_float ::
  "(int \<Rightarrow> int \<Rightarrow> real) \<Rightarrow> (real \<Rightarrow> real \<Rightarrow> real) \<Rightarrow> nat \<Rightarrow> nat \<Rightarrow> pystr \<Rightarrow> Point list \<Rightarrow> bool" where
  "qr_rules_float hyp dv image_height image_width txt quad =
     (size_rules image_height image_width txt quad \<and>
      0 < float_min_edge hyp quad \<and>
      dv (float_max_edge hyp quad) (float_min_edge hyp quad) \<le> 125 / 100)"

text \<open>
  The checks of the loop body as one conjunction, for a given \<open>image_area\<close>: what the
  body decides for a quad with at least one point (lemma \<open>filter_body_rules\<close>).
\<close>

definition body_rules ::
  "(int \<Rightarrow> int \<Rightarrow> real) \<Rightarrow> (real \<Rightarrow> real \<Rightarrow> real) \<Rightarrow> int \<Rightarrow> pystr \<Rightarrow> Point list \<Rightarrow> bool" where
  "body_rules hyp dv image_area txt quad =
     (length (strip txt) \<ge> 4 \<and>
      width_px quad \<ge> 48 \<and> height_px quad \<ge> 48 \<and>
      1 / 1000 \<le> real_of_int (width_px quad * height_px quad) / real_of_int image_area \<and>
      real_of_int (width_px quad * height_px quad) / real_of_int image_area \<le> 3 / 100 \<and>
      7 / 10 \<le> real_of_int (width_px quad) / real_of_int (height_px quad) \<and>
      real_of_int (width_px quad) / real_of_int (height_px quad) \<le> 13 / 10 \<and>
      0 < float_min_edge hyp quad \<and>
      dv (float_max_edge hyp quad) (float_min_edge hyp quad) \<le> 125 / 100)"

text \<open>
  The operations on the values of the examples below. On the quad
  \<open>[(88,0), (93,110), (5,114), (0,4)]\<close>, \<open>math.hypot\<close> returns 110.11357772772621 for
  the two edges of squared length 12125 and 88.09086218218096 for the two of squared
  length 7760; the double quotient of the two is 1.2500000000000002, one unit in the
  last place above 5/4. These are the doubles nearest to the exact values (lemma
  \<open>example_doubles_nearest\<close>). The other values that the examples use are doubles and
  are computed without rounding: the length of an edge parallel to an axis, and the
  quotients 1 and 1.28125. The examples of the backend filter, which calls \<open>np.hypot\<close>,
  have edges parallel to the axes only.
\<close>

definition example_hypot :: "int \<Rightarrow> int \<Rightarrow> real" where
  "example_hypot a b =
     (if a * a + b * b = 12125 then 7748554181609686 / 2 ^ 46
      else if a * a + b * b = 7760 then 6198843345287748 / 2 ^ 46
      else euclid a b)"

definition example_truediv :: "real \<Rightarrow> real \<Rightarrow> real" where
  "example_truediv x y =
     (if x = 7748554181609686 / 2 ^ 46 \<and> y = 6198843345287748 / 2 ^ 46
      then 5629499534213121 / 2 ^ 52
      else x / y)"

definition example_doubles :: float_ops where
  "example_doubles =
     \<lparr>np_hypot = example_hypot, math_hypot = example_hypot, truediv = example_truediv\<rparr>"

text \<open>The \<open>str\<close> of an ASCII literal, for the examples.\<close>

definition codepoints :: "string \<Rightarrow> pystr" where
  "codepoints s = map of_char s"

section \<open>Engine arbitration (qr_detect.py, app/services/qr_detector.py)\<close>

definition merge_results ::
  "pystr list \<times> Point list list \<Rightarrow> pystr list \<times> Point list list \<Rightarrow>
   pystr list \<times> Point list list" where
  "merge_results primary fallback =
     (case primary of (data, boxes) \<Rightarrow> if data \<noteq> [] then (data, boxes) else fallback)"

text \<open>
  \<open>QRDetector.detect\<close>. The arguments \<open>cv\<close> and \<open>zbar\<close> are the lists (decoded, boxes)
  that \<open>_detect_opencv\<close> and \<open>_detect_pyzbar\<close> hand to \<open>_filter\<close>; without the pyzbar
  library the second pair is two empty lists. The second engine is read only when the
  first gives no text.
\<close>

definition qr_records :: "pystr list \<Rightarrow> Point list list \<Rightarrow> QRDetection list" where
  "qr_records decoded boxes =
     map (\<lambda>(t, box). \<lparr>qr_text = t, polygon = box\<rparr>) (zip decoded boxes)"

definition QRDetector_detect ::
  "float_ops \<Rightarrow> nat \<times> nat \<Rightarrow> pystr list \<times> Point list list \<Rightarrow> pystr list \<times> Point list list \<Rightarrow>
   exn + QRDetection list" where
  "QRDetector_detect fp image_shape cv zbar =
     (case QRDetector_filter fp (fst cv) (snd cv) image_shape of
        Inl e \<Rightarrow> Inl e
      | Inr (decoded_cv, boxes_cv) \<Rightarrow>
          if decoded_cv \<noteq> [] then Inr (qr_records decoded_cv boxes_cv)
          else
            (case QRDetector_filter fp (fst zbar) (snd zbar) image_shape of
               Inl e \<Rightarrow> Inl e
             | Inr (decoded_zbar, boxes_zbar) \<Rightarrow> Inr (qr_records decoded_zbar boxes_zbar)))"

section \<open>Heatmap accumulator (app/services/heatmap.py)\<close>

text \<open>
  The accumulator is an array of \<open>height\<close> rows of \<open>width\<close> cells; the cell in row \<open>y\<close>
  and column \<open>x\<close> is \<open>heatmap ! y ! x\<close>. \<open>polygon_to_bbox\<close> (qr_detector.py) takes the
  minima and maxima of the coordinates and raises on a polygon without points.
\<close>

type_synonym heatmap = "real list list"

definition polygon_to_bbox :: "Point list \<Rightarrow> exn + box" where
  "polygon_to_bbox points =
     (let xs = map fst points; ys = map snd points
      in case py_min xs of Inl e \<Rightarrow> Inl e | Inr min_x \<Rightarrow>
         case py_min ys of Inl e \<Rightarrow> Inl e | Inr min_y \<Rightarrow>
         case py_max xs of Inl e \<Rightarrow> Inl e | Inr max_x \<Rightarrow>
         case py_max ys of Inl e \<Rightarrow> Inl e | Inr max_y \<Rightarrow>
           Inr (min_x, min_y, max_x, max_y))"

text \<open>The two spreads that \<open>add_gaussian_to_heatmap\<close> computes from the box.\<close>

fun sigma_x :: "Settings \<Rightarrow> box \<Rightarrow> real" where
  "sigma_x s (x1, y1, x2, y2) =
     (let w = max 1 (x2 - x1) in max 1 (real_of_int w * heatmap_sigma_scale s))"

fun sigma_y :: "Settings \<Rightarrow> box \<Rightarrow> real" where
  "sigma_y s (x1, y1, x2, y2) =
     (let h = max 1 (y2 - y1) in max 1 (real_of_int h * heatmap_sigma_scale s))"

text \<open>The value of the Gaussian of a box at the grid point \<open>(x, y)\<close>.\<close>

fun gaussian :: "Settings \<Rightarrow> box \<Rightarrow> nat \<Rightarrow> nat \<Rightarrow> real" where
  "gaussian s (x1, y1, x2, y2) x y =
     (let cx = (x1 + x2) div 2;
          cy = (y1 + y2) div 2
      in exp (- ((real_of_int (int x - cx))\<^sup>2 / (2 * (sigma_x s (x1, y1, x2, y2))\<^sup>2) +
                 (real_of_int (int y - cy))\<^sup>2 / (2 * (sigma_y s (x1, y1, x2, y2))\<^sup>2))))"

definition add_gaussian_to_heatmap :: "Settings \<Rightarrow> heatmap \<Rightarrow> box \<Rightarrow> real \<Rightarrow> heatmap" where
  "add_gaussian_to_heatmap s heatmap b conf =
     map (\<lambda>(y, row). map (\<lambda>(x, v). v + gaussian s b x y * conf) (enumerate 0 row))
       (enumerate 0 heatmap)"

fun splat_polygons :: "Settings \<Rightarrow> heatmap \<Rightarrow> Point list list \<Rightarrow> exn + heatmap" where
  "splat_polygons s heatmap [] = Inr heatmap"
| "splat_polygons s heatmap (poly # rest) =
     (case polygon_to_bbox poly of
        Inl e \<Rightarrow> Inl e
      | Inr (x1, y1, x2, y2) \<Rightarrow>
          splat_polygons s (add_gaussian_to_heatmap s heatmap (x1, y1, x2, y2) (9 / 10)) rest)"

text \<open>\<open>heatmap.max()\<close>: the largest cell; numpy raises \<open>ValueError\<close> on an array without cells.\<close>

definition heatmap_max :: "heatmap \<Rightarrow> exn + real" where
  "heatmap_max heatmap =
     (case concat heatmap of
        [] \<Rightarrow> Inl (ValueError ''zero-size array to reduction operation maximum which has no identity'')
      | v # vs \<Rightarrow> Inr (fold max vs v))"

text \<open>
  \<open>generate_heatmap\<close> up to the normalisation. The result of the model is the normalised
  accumulator; the colour map, the blend with the page and the file write that follow in
  the source are not modelled.
\<close>

definition generate_heatmap ::
  "Settings \<Rightarrow> nat \<times> nat \<Rightarrow> DetectionBox list \<Rightarrow> Point list list \<Rightarrow> exn + heatmap" where
  "generate_heatmap s image_shape dets qr_polygons =
     (case image_shape of (height, width) \<Rightarrow>
        let heatmap0 = replicate height (replicate width 0);
            heatmap1 = fold (\<lambda>box hm. add_gaussian_to_heatmap s hm (bbox box) (confidence box))
                         dets heatmap0
        in case splat_polygons s heatmap1 qr_polygons of
             Inl e \<Rightarrow> Inl e
           | Inr heatmap2 \<Rightarrow>
               (case heatmap_max heatmap2 of
                  Inl e \<Rightarrow> Inl e
                | Inr m \<Rightarrow> Inr (if m > 0 then map (map (\<lambda>v. v / m)) heatmap2 else heatmap2)))"

text \<open>Every cell of the accumulator is at least 0: the invariant of the splats.\<close>

definition nonneg :: "heatmap \<Rightarrow> bool" where
  "nonneg hm = (\<forall>row \<in> set hm. \<forall>v \<in> set row. 0 \<le> v)"

text \<open>
  The spreads in the words of the specification: from the half-extents of the box, half
  its width and half its height.
\<close>

fun sigma_x_spec :: "Settings \<Rightarrow> box \<Rightarrow> real" where
  "sigma_x_spec s (x1, y1, x2, y2) = max 1 ((real_of_int (x2 - x1) / 2) * heatmap_sigma_scale s)"

fun sigma_y_spec :: "Settings \<Rightarrow> box \<Rightarrow> real" where
  "sigma_y_spec s (x1, y1, x2, y2) = max 1 ((real_of_int (y2 - y1) / 2) * heatmap_sigma_scale s)"

section \<open>Evaluation matcher (evaluate_selected.py)\<close>

text \<open>
  \<open>BoundingBox\<close> of the evaluator, with the field names prefixed (\<open>x1\<close> to \<open>bb_x1\<close>,
  \<open>confidence\<close> to \<open>bb_confidence\<close>).
\<close>

record BoundingBox =
  bb_x1 :: real
  bb_y1 :: real
  bb_x2 :: real
  bb_y2 :: real
  bb_confidence :: real

text \<open>
  \<open>compute_iou\<close> works on the arrays of \<open>as_array\<close>, which are float32. \<open>fl\<close> is the
  rounding of float32: the four coordinates of a box are rounded when its array is
  built, and every difference, product, sum and quotient of two float32 values is
  rounded to float32. The model reads a finite float32 as the real number it denotes;
  \<open>max\<close>, \<open>min\<close> and the comparisons are exact on these. The rounding is an argument of
  the model, and nothing is assumed of it.
\<close>

definition compute_iou :: "(real \<Rightarrow> real) \<Rightarrow> BoundingBox \<Rightarrow> BoundingBox \<Rightarrow> real" where
  "compute_iou fl box_a box_b =
     (let a0 = fl (bb_x1 box_a); a1 = fl (bb_y1 box_a);
          a2 = fl (bb_x2 box_a); a3 = fl (bb_y2 box_a);
          b0 = fl (bb_x1 box_b); b1 = fl (bb_y1 box_b);
          b2 = fl (bb_x2 box_b); b3 = fl (bb_y2 box_b);
          inter0 = max a0 b0; inter1 = max a1 b1;
          inter2 = min a2 b2; inter3 = min a3 b3;
          inter_w = max 0 (fl (inter2 - inter0));
          inter_h = max 0 (fl (inter3 - inter1))
      in if inter_w = 0 \<or> inter_h = 0 then 0
         else
           let inter_area = fl (inter_w * inter_h);
               area_a = max 0 (fl (fl (a2 - a0) * fl (a3 - a1)));
               area_b = max 0 (fl (fl (b2 - b0) * fl (b3 - b1)));
               union = fl (fl (area_a + area_b) - inter_area)
           in if union \<noteq> 0 then fl (inter_area / union) else 0)"

text \<open>
  The inner loop over \<open>enumerate(gt_boxes)\<close> with the state \<open>(best_iou, best_idx)\<close>, and
  the outer loop over the sorted predictions with the state \<open>(matched_gt, tp, fp)\<close>.
  \<open>iou_threshold\<close> is the threshold as the comparison \<open>best_iou >= iou_threshold\<close> reads
  it.
\<close>

fun best_loop ::
  "(real \<Rightarrow> real) \<Rightarrow> nat set \<Rightarrow> BoundingBox \<Rightarrow> (nat \<times> BoundingBox) list \<Rightarrow> real \<times> int \<Rightarrow>
   real \<times> int" where
  "best_loop fl matched_gt pred [] best = best"
| "best_loop fl matched_gt pred ((idx, gt) # rest) (best_iou, best_idx) =
     (if idx \<in> matched_gt then best_loop fl matched_gt pred rest (best_iou, best_idx)
      else
        let iou = compute_iou fl gt pred
        in if iou > best_iou then best_loop fl matched_gt pred rest (iou, int idx)
           else best_loop fl matched_gt pred rest (best_iou, best_idx))"

fun match_loop ::
  "(real \<Rightarrow> real) \<Rightarrow> BoundingBox list \<Rightarrow> real \<Rightarrow> BoundingBox list \<Rightarrow> nat set \<times> int \<times> int \<Rightarrow>
   nat set \<times> int \<times> int" where
  "match_loop fl gt_boxes iou_threshold [] st = st"
| "match_loop fl gt_boxes iou_threshold (pred # preds) (matched_gt, tp, fp) =
     (case best_loop fl matched_gt pred (enumerate 0 gt_boxes) (0, - 1) of
        (best_iou, best_idx) \<Rightarrow>
          if best_iou \<ge> iou_threshold \<and> best_idx \<ge> 0
          then match_loop fl gt_boxes iou_threshold preds
                 (insert (nat best_idx) matched_gt, tp + 1, fp)
          else match_loop fl gt_boxes iou_threshold preds (matched_gt, tp, fp + 1))"

text \<open>
  \<open>sorted(pred_boxes, key=confidence, reverse=True)\<close> is stable: descending confidence,
  equal confidences in their original order. That is the stable ascending sort on the
  negated confidence.
\<close>

definition sorted_by_confidence :: "BoundingBox list \<Rightarrow> BoundingBox list" where
  "sorted_by_confidence pred_boxes = sort_key (\<lambda>b. - bb_confidence b) pred_boxes"

definition match_predictions ::
  "(real \<Rightarrow> real) \<Rightarrow> BoundingBox list \<Rightarrow> BoundingBox list \<Rightarrow> real \<Rightarrow> int \<times> int \<times> int" where
  "match_predictions fl gt_boxes pred_boxes iou_threshold =
     (if gt_boxes = [] \<and> pred_boxes = [] then (0, 0, 0)
      else
        case match_loop fl gt_boxes iou_threshold (sorted_by_confidence pred_boxes) ({}, 0, 0) of
          (matched_gt, tp, fp) \<Rightarrow> (tp, fp, int (length gt_boxes) - int (card matched_gt)))"

text \<open>
  The unmatched ground-truth boxes that a prediction can claim, for the statement of the
  matching: \<open>free gt_boxes M\<close> are the indices not yet matched, and \<open>best_free\<close> says that
  \<open>k\<close> is the first free index whose computed IoU with the prediction is the largest
  among the free ones.
\<close>

definition free :: "BoundingBox list \<Rightarrow> nat set \<Rightarrow> nat set" where
  "free gt_boxes M = set (filter (\<lambda>k. k \<notin> M) [0..<length gt_boxes])"

definition best_free ::
  "(real \<Rightarrow> real) \<Rightarrow> BoundingBox list \<Rightarrow> nat set \<Rightarrow> BoundingBox \<Rightarrow> nat \<Rightarrow> bool" where
  "best_free fl gt_boxes M pred k =
     (k \<in> free gt_boxes M \<and>
      (\<forall>j \<in> free gt_boxes M.
         compute_iou fl (gt_boxes ! j) pred \<le> compute_iou fl (gt_boxes ! k) pred \<and>
         (j < k \<longrightarrow> compute_iou fl (gt_boxes ! j) pred < compute_iou fl (gt_boxes ! k) pred)))"

section \<open>Pipeline orchestrator (app/services/pipeline.py)\<close>

text \<open>
  \<open>process_job\<close> calls the file system, the page rasterizer, the detector, the QR
  reader and the two renderers. Their behaviour on one run is the record \<open>world\<close>: each
  call either returns its value or raises. \<open>'img\<close> is the type of a decoded image.
  \<^item> \<open>make_dirs\<close>, \<open>move_upload\<close>: creating the four job directories and moving the
    upload to \<open>upload_target\<close>; the exception raised, if any.
  \<^item> \<open>prepare_pages\<close>: the page images of the upload, or the exception (an unsupported
    file type raises \<open>ValueError\<close>).
  \<^item> \<open>get_detection_service\<close>: raises when the weights file is missing.
  \<^item> \<open>imread\<close>: \<open>cv2.imread\<close>, \<open>None\<close> for an unreadable file.
  \<^item> \<open>detect\<close>: the detector; \<open>qr_detect\<close>: \<open>qr_detector.detect\<close>, the function
    \<open>QRDetector_detect\<close> above on what the two engines read.
  \<^item> \<open>annotated_target\<close>, \<open>heatmap_target\<close>, \<open>page_name_of\<close>: the paths computed from
    the page path; \<open>make_parent\<close>: \<open>target.parent.mkdir\<close>.
  \<^item> \<open>annotate_image\<close>, \<open>heatmap_image\<close>: the renderers \<open>annotate_image\<close> and
    \<open>generate_heatmap\<close> writing their files, returning the path written.
\<close>

record 'img world =
  make_dirs :: "exn option"
  move_upload :: "exn option"
  upload_target :: string
  prepare_pages :: "exn + string list"
  get_detection_service :: "exn option"
  imread :: "string \<Rightarrow> 'img option"
  detect :: "'img \<Rightarrow> exn + DetectionBox list"
  qr_detect :: "'img \<Rightarrow> exn + QRDetection list"
  annotated_target :: "string \<Rightarrow> string"
  heatmap_target :: "string \<Rightarrow> string"
  page_name_of :: "string \<Rightarrow> string"
  make_parent :: "string \<Rightarrow> exn option"
  annotate_image :: "'img \<Rightarrow> DetectionBox list \<Rightarrow> Point list list \<Rightarrow> string \<Rightarrow> exn + string"
  heatmap_image :: "'img \<Rightarrow> DetectionBox list \<Rightarrow> Point list list \<Rightarrow> string \<Rightarrow> exn + string"

text \<open>
  \<open>for det in detections: if det.label in summary_counts: summary_counts[det.label] += 1\<close>
\<close>

fun count_labels :: "(string \<rightharpoonup> int) \<Rightarrow> DetectionBox list \<Rightarrow> (string \<rightharpoonup> int)" where
  "count_labels summary_counts [] = summary_counts"
| "count_labels summary_counts (det # dets) =
     (case summary_counts (label det) of
        None \<Rightarrow> count_labels summary_counts dets
      | Some c \<Rightarrow> count_labels (summary_counts(label det \<mapsto> c + 1)) dets)"

text \<open>
  The body of the loop over the pages, on the two accumulators \<open>page_results\<close> and
  \<open>summary_counts\<close>. An unreadable page is skipped.
\<close>

definition page_step ::
  "'img world \<Rightarrow> Settings \<Rightarrow> string \<Rightarrow> PageResult list \<times> (string \<rightharpoonup> int) \<Rightarrow>
   exn + (PageResult list \<times> (string \<rightharpoonup> int))" where
  "page_step w s page_path acc =
     (case acc of (page_results, summary_counts) \<Rightarrow>
      case imread w page_path of
        None \<Rightarrow> Inr (page_results, summary_counts)
      | Some img \<Rightarrow>
      case detect w img of Inl e \<Rightarrow> Inl e | Inr raw \<Rightarrow>
      let dets = filter_signature_overlaps raw in
      case qr_detect w img of Inl e \<Rightarrow> Inl e | Inr qr_hits \<Rightarrow>
      let qr_polygons = map polygon qr_hits in
      case make_parent w (annotated_target w page_path) of Some e \<Rightarrow> Inl e | None \<Rightarrow>
      case annotate_image w img dets qr_polygons (annotated_target w page_path) of
        Inl e \<Rightarrow> Inl e
      | Inr annotated \<Rightarrow>
      case (if enable_heatmap s
            then (case make_parent w (heatmap_target w page_path) of
                    Some e \<Rightarrow> Inl e
                  | None \<Rightarrow>
                      (case heatmap_image w img dets qr_polygons (heatmap_target w page_path) of
                         Inl e \<Rightarrow> Inl e
                       | Inr hp \<Rightarrow> Inr (Some hp)))
            else Inr None) of
        Inl e \<Rightarrow> Inl e
      | Inr heatmap \<Rightarrow>
      let counts1 = count_labels summary_counts dets in
      case counts1 ''qr'' of None \<Rightarrow> Inl (KeyError ''qr'') | Some c \<Rightarrow>
      let counts2 = counts1(''qr'' \<mapsto> c + int (length qr_hits));
          review = analyze_review_need s dets qr_hits
      in Inr (page_results @
                [\<lparr>page_name = page_name_of w page_path, source_path = page_path,
                  annotated_path = Some annotated, heatmap_path = heatmap,
                  detections = dets, qr_codes = qr_hits, requires_review = review\<rparr>],
              counts2))"

fun pages_loop ::
  "'img world \<Rightarrow> Settings \<Rightarrow> string list \<Rightarrow> PageResult list \<times> (string \<rightharpoonup> int) \<Rightarrow>
   exn + (PageResult list \<times> (string \<rightharpoonup> int))" where
  "pages_loop w s [] acc = Inr acc"
| "pages_loop w s (page_path # rest) acc =
     (case page_step w s page_path acc of
        Inl e \<Rightarrow> Inl e
      | Inr acc' \<Rightarrow> pages_loop w s rest acc')"

text \<open>
  \<open>job\<close> in \<open>process_job\<close> is the object the registry holds, so an assignment to a field
  of \<open>job\<close> changes the entry of the registry.
\<close>

definition update_job :: "JobManager \<Rightarrow> string \<Rightarrow> (JobResult \<Rightarrow> JobResult) \<Rightarrow> JobManager" where
  "update_job jobs jid f = (case jobs jid of None \<Rightarrow> jobs | Some job \<Rightarrow> jobs(jid \<mapsto> f job))"

text \<open>
  The body of the \<open>try\<close>: \<open>Inr\<close> is the registry after a normal end, \<open>Inl\<close> the registry
  at the moment of the exception together with the exception.
\<close>

definition try_body ::
  "'img world \<Rightarrow> Settings \<Rightarrow> datetime \<Rightarrow> JobManager \<Rightarrow> string \<Rightarrow>
   (JobManager \<times> exn) + JobManager" where
  "try_body w s now jobs jid =
     (case make_dirs w of Some e \<Rightarrow> Inl (jobs, e) | None \<Rightarrow>
      case move_upload w of Some e \<Rightarrow> Inl (jobs, e) | None \<Rightarrow>
      case prepare_pages w of Inl e \<Rightarrow> Inl (jobs, e) | Inr page_images \<Rightarrow>
      let jobs1 = update_job jobs jid (\<lambda>job. job\<lparr>source_files := [upload_target w]\<rparr>) in
      case get_detection_service w of Some e \<Rightarrow> Inl (jobs1, e) | None \<Rightarrow>
      case pages_loop w s page_images
             ([], [''signature'' \<mapsto> 0, ''stamp'' \<mapsto> 0, ''qr'' \<mapsto> 0]) of
        Inl e \<Rightarrow> Inl (jobs1, e)
      | Inr (page_results, summary_counts) \<Rightarrow>
      let jobs2 = update_job jobs1 jid
                    (\<lambda>job. job\<lparr>pages := page_results, summary := summary_counts,
                                status := completed\<rparr>) in
      case mark_completed jobs2 jid now of
        Inl e \<Rightarrow> Inl (jobs2, e)
      | Inr jobs3 \<Rightarrow> Inr jobs3)"

text \<open>
  \<open>process_job\<close> returns the registry it leaves and the exception it raises, if any.
  \<open>now\<close> is the time at which the job is marked completed or failed.
\<close>

definition process_job ::
  "'img world \<Rightarrow> Settings \<Rightarrow> datetime \<Rightarrow> JobManager \<Rightarrow> string \<Rightarrow> JobManager \<times> exn option" where
  "process_job w s now jobs jid =
     (case get jobs jid of
        None \<Rightarrow> (jobs, Some (RuntimeError (''Job '' @ jid @ '' not registered'')))
      | Some job \<Rightarrow>
          (case mark_running jobs jid of
             Inl e \<Rightarrow> (jobs, Some e)
           | Inr jobs1 \<Rightarrow>
               (case try_body w s now jobs1 jid of
                  Inr jobs2 \<Rightarrow> (jobs2, None)
                | Inl (jobs2, exc) \<Rightarrow>
                    (case mark_failed jobs2 jid (str_exn exc) now of
                       Inl e \<Rightarrow> (jobs2, Some e)
                     | Inr jobs3 \<Rightarrow> (jobs3, Some exc)))))"

text \<open>
  A run on two pages for the examples below: an image is named by its path, the first
  page has one stamp and no QR code, and the detector fails on the second page.
\<close>

definition two_page_world :: "string world" where
  "two_page_world =
     \<lparr>make_dirs = None, move_upload = None, upload_target = ''input/scan.zip'',
      prepare_pages = Inr [''page_1.png'', ''page_2.png''],
      get_detection_service = None,
      imread = (\<lambda>path. Some path),
      detect = (\<lambda>img. if img = ''page_1.png''
                  then Inr [\<lparr>label = ''stamp'', confidence = 9 / 10, bbox = (0, 0, 200, 200)\<rparr>]
                  else Inl (Raised ''detector failed'')),
      qr_detect = (\<lambda>img. Inr []),
      annotated_target = (\<lambda>path. ''annotated/'' @ path),
      heatmap_target = (\<lambda>path. ''heatmaps/'' @ path),
      page_name_of = (\<lambda>path. path),
      make_parent = (\<lambda>path. None),
      annotate_image = (\<lambda>img dets polys target. Inr target),
      heatmap_image = (\<lambda>img dets polys target. Inr target)\<rparr>"

text \<open>The same run, with a detector that finds nothing and a QR reader with one hit.\<close>

definition qr_only_world :: "string world" where
  "qr_only_world =
     two_page_world
       \<lparr>detect := (\<lambda>img. Inr []),
        qr_detect := (\<lambda>img. Inr [\<lparr>qr_text = codepoints ''https://a.b'',
                                    polygon = [(100, 100), (200, 100), (200, 200), (100, 200)]\<rparr>])\<rparr>"

section \<open>Properties of the JobManager\<close>

lemma apply_transition_present:
  "jobs jid = Some j \<Longrightarrow>
   \<exists>jobs' j'. apply_transition jobs jid t = Inr jobs' \<and> jobs' jid = Some j' \<and>
     status j' = target_of t \<and>
     completed_at j' = (case stamp_of t of None \<Rightarrow> completed_at j | Some n \<Rightarrow> Some n)"
  by (cases t) (simp_all add: mark_running_def mark_completed_def mark_failed_def)

lemma run_transitions_present:
  "jobs jid = Some j \<Longrightarrow> \<exists>jobs' j'. run_transitions jobs jid ts = Inr jobs' \<and> jobs' jid = Some j'"
proof (induction ts arbitrary: jobs j)
  case Nil
  then show ?case by simp
next
  case (Cons t ts)
  from apply_transition_present [of jobs jid j t] Cons.prems
  obtain jobs1 j1 where s: "apply_transition jobs jid t = Inr jobs1" "jobs1 jid = Some j1"
    by blast
  from Cons.IH [of jobs1 j1] s show ?case by simp
qed

lemma run_transitions_append:
  "run_transitions jobs jid (ts @ us) =
     (case run_transitions jobs jid ts of
        Inl e \<Rightarrow> Inl e
      | Inr jobs' \<Rightarrow> run_transitions jobs' jid us)"
  by (induction ts arbitrary: jobs) (simp_all split: sum.splits)

lemma run_transitions_last:
  assumes "jobs jid = Some j"
  shows "\<exists>jobs' j'. run_transitions jobs jid (ts @ [t]) = Inr jobs' \<and> jobs' jid = Some j' \<and>
           status j' = target_of t \<and>
           (\<forall>n. stamp_of t = Some n \<longrightarrow> completed_at j' = Some n)"
proof -
  from run_transitions_present [of jobs jid j ts] assms
  obtain jobs1 j1 where s: "run_transitions jobs jid ts = Inr jobs1" "jobs1 jid = Some j1"
    by blast
  from apply_transition_present [of jobs1 jid j1 t] s(2)
  obtain jobs2 j2 where u: "apply_transition jobs1 jid t = Inr jobs2" "jobs2 jid = Some j2"
    "status j2 = target_of t"
    "completed_at j2 = (case stamp_of t of None \<Rightarrow> completed_at j1 | Some n \<Rightarrow> Some n)"
    by blast
  have "run_transitions jobs jid (ts @ [t]) = Inr jobs2"
    by (simp add: run_transitions_append s(1) u(1))
  moreover have "\<forall>n. stamp_of t = Some n \<longrightarrow> completed_at j2 = Some n"
    using u(4) by simp
  ultimately show ?thesis using u(2,3) by blast
qed

text \<open>
  C1 (as stated): once a job is completed or failed, no further transition is accepted.
  The registry has no such guard. On the registry holding one job that completed at
  tick 5, \<open>mark_running\<close> is accepted and moves the job back to \<open>running\<close>, and
  \<open>mark_failed\<close> is accepted, moves it to \<open>failed\<close> and stamps \<open>completed_at\<close> a
  second time.
\<close>

theorem C1_terminal_not_absorbing:
  "(case mark_running 
        [''j1'' \<mapsto> (new_job ''j1'' 0)\<lparr>status := completed, completed_at := Some 5\<rparr>] ''j1'' of
      Inl e \<Rightarrow> False
    | Inr jobs' \<Rightarrow> map_option status (jobs' ''j1'') = Some running) \<and>
   (case mark_failed 
        [''j1'' \<mapsto> (new_job ''j1'' 0)\<lparr>status := completed, completed_at := Some 5\<rparr>] ''j1'' ''late'' 9 of
      Inl e \<Rightarrow> False
    | Inr jobs' \<Rightarrow>
        map_option status (jobs' ''j1'') = Some failed \<and>
        map_option completed_at (jobs' ''j1'') = Some (Some 9))"
  by (simp add: mark_running_def mark_failed_def new_job_def)

text \<open>
  C1 (amended): the registry accepts every transition on a registered job, whatever its
  current status: after any sequence of transition calls the status is the target of
  the last call, and a \<open>mark_completed\<close> or \<open>mark_failed\<close> that comes last leaves its own
  time in \<open>completed_at\<close>. On the sequence a run of the orchestrator issues on a pending
  job with no completion time, \<open>mark_running\<close> followed by one terminal call, the status
  goes pending, running, then completed or failed, and \<open>completed_at\<close> is empty until
  the terminal call sets it.
\<close>

theorem C1_transitions_unconditional:
  "(jobs jid = Some j \<longrightarrow>
      (\<exists>jobs' j'. run_transitions jobs jid (ts @ [t]) = Inr jobs' \<and> jobs' jid = Some j' \<and>
         status j' = target_of t \<and>
         (\<forall>n. stamp_of t = Some n \<longrightarrow> completed_at j' = Some n))) \<and>
   (jobs jid = Some j \<and> status j = pending \<and> completed_at j = None \<and> stamp_of u \<noteq> None \<longrightarrow>
      (\<exists>jobs1 j1 jobs2 j2.
         mark_running jobs jid = Inr jobs1 \<and> jobs1 jid = Some j1 \<and>
         status j1 = running \<and> completed_at j1 = None \<and>
         apply_transition jobs1 jid u = Inr jobs2 \<and> jobs2 jid = Some j2 \<and>
         status j2 = target_of u \<and> status j2 \<in> {completed, failed} \<and>
         completed_at j2 = stamp_of u))"
proof (intro conjI impI)
  assume "jobs jid = Some j"
  then show "\<exists>jobs' j'. run_transitions jobs jid (ts @ [t]) = Inr jobs' \<and> jobs' jid = Some j' \<and>
         status j' = target_of t \<and>
         (\<forall>n. stamp_of t = Some n \<longrightarrow> completed_at j' = Some n)"
    by (rule run_transitions_last)
next
  assume a: "jobs jid = Some j \<and> status j = pending \<and> completed_at j = None \<and> stamp_of u \<noteq> None"
  then show "\<exists>jobs1 j1 jobs2 j2.
         mark_running jobs jid = Inr jobs1 \<and> jobs1 jid = Some j1 \<and>
         status j1 = running \<and> completed_at j1 = None \<and>
         apply_transition jobs1 jid u = Inr jobs2 \<and> jobs2 jid = Some j2 \<and>
         status j2 = target_of u \<and> status j2 \<in> {completed, failed} \<and>
         completed_at j2 = stamp_of u"
    by (cases u) (simp_all add: mark_running_def mark_completed_def mark_failed_def)
qed

theorem C1_transitions_unconditional_witness:
  "(\<exists>jobs' j'. run_transitions [''j1'' \<mapsto> new_job ''j1'' 0] ''j1''
        ([Mark_running, Mark_completed 5] @ [Mark_running]) = Inr jobs' \<and>
      jobs' ''j1'' = Some j' \<and> status j' = running) \<and>
   (\<exists>jobs1 j1 jobs2 j2.
      mark_running [''j1'' \<mapsto> new_job ''j1'' 0] ''j1'' = Inr jobs1 \<and> jobs1 ''j1'' = Some j1 \<and>
      status j1 = running \<and> completed_at j1 = None \<and>
      apply_transition jobs1 ''j1'' (Mark_failed ''boom'' 7) = Inr jobs2 \<and>
      jobs2 ''j1'' = Some j2 \<and> status j2 = failed \<and> completed_at j2 = Some 7)"
proof -
  have p: "[''j1'' \<mapsto> new_job ''j1'' 0] ''j1'' = Some (new_job ''j1'' 0)"
    by simp
  have q: "status (new_job ''j1'' 0) = pending" "completed_at (new_job ''j1'' 0) = None"
    "stamp_of (Mark_failed ''boom'' 7) \<noteq> None"
    by (simp_all add: new_job_def)
  note inst = C1_transitions_unconditional
    [of "[''j1'' \<mapsto> new_job ''j1'' 0]" "''j1''" "new_job ''j1'' 0"
        "[Mark_running, Mark_completed 5]" Mark_running "Mark_failed ''boom'' 7"]
  from inst p have "\<exists>jobs' j'. run_transitions [''j1'' \<mapsto> new_job ''j1'' 0] ''j1''
        ([Mark_running, Mark_completed 5] @ [Mark_running]) = Inr jobs' \<and>
      jobs' ''j1'' = Some j' \<and> status j' = running"
    by auto
  moreover from inst p q have "\<exists>jobs1 j1 jobs2 j2.
      mark_running [''j1'' \<mapsto> new_job ''j1'' 0] ''j1'' = Inr jobs1 \<and> jobs1 ''j1'' = Some j1 \<and>
      status j1 = running \<and> completed_at j1 = None \<and>
      apply_transition jobs1 ''j1'' (Mark_failed ''boom'' 7) = Inr jobs2 \<and>
      jobs2 ''j1'' = Some j2 \<and> status j2 = failed \<and> completed_at j2 = Some 7"
    by auto
  ultimately show ?thesis by blast
qed

section \<open>Properties of the overlap suppressor\<close>

text \<open>
  An intersection that is not empty is positive and lies within both boxes, so neither
  division of \<open>_signature_inside_stamp\<close> has a zero denominator and the check
  \<open>stamp_area == 0\<close> never fires after a non-empty intersection.
\<close>

lemma intersection_area_bounds:
  assumes "intersection_area a b \<noteq> 0"
  shows "0 < intersection_area a b \<and> intersection_area a b \<le> bbox_area a \<and>
         intersection_area a b \<le> bbox_area b"
proof -
  obtain ax1 ay1 ax2 ay2 where a: "a = (ax1, ay1, ax2, ay2)" by (cases a) auto
  obtain bx1 by1 bx2 by2 where b: "b = (bx1, by1, bx2, by2)" by (cases b) auto
  define w where "w = min ax2 bx2 - max ax1 bx1"
  define h where "h = min ay2 by2 - max ay1 by1"
  from assms have wh: "0 < w" "0 < h" and ia: "intersection_area a b = w * h"
    by (auto simp: a b w_def h_def Let_def split: if_splits)
  have wa: "w \<le> ax2 - ax1" "w \<le> bx2 - bx1" and ha: "h \<le> ay2 - ay1" "h \<le> by2 - by1"
    by (auto simp: w_def h_def)
  have "w * h \<le> (ax2 - ax1) * (ay2 - ay1)"
    using wh wa ha by (intro mult_mono) auto
  moreover have "w * h \<le> (bx2 - bx1) * (by2 - by1)"
    using wh wa ha by (intro mult_mono) auto
  moreover have "0 < w * h" using wh by simp
  moreover have "bbox_area a = (ax2 - ax1) * (ay2 - ay1)"
    using wh wa ha by (simp add: a max_def)
  moreover have "bbox_area b = (bx2 - bx1) * (by2 - by1)"
    using wh wa ha by (simp add: b max_def)
  ultimately show ?thesis by (simp add: ia)
qed

lemma iou_denominator_pos:
  "intersection_area a b \<noteq> 0 \<Longrightarrow> 0 < bbox_area a + bbox_area b - intersection_area a b"
  using intersection_area_bounds [of a b] by linarith

lemma inside_stamp_loop_iff:
  assumes "sig_area = bbox_area (bbox S)" "sig_area \<noteq> 0"
  shows "inside_stamp_loop (bbox S) sig_area stamps =
           (\<exists>T \<in> set stamps. coverage_spec S T \<ge> 9 / 10 \<or> iou_spec S T \<ge> 6 / 10)"
proof (induction stamps)
  case Nil
  then show ?case by simp
next
  case (Cons T stamps)
  show ?case
  proof (cases "intersection_area (bbox S) (bbox T) = 0")
    case True
    then have "\<not> (coverage_spec S T \<ge> 9 / 10 \<or> iou_spec S T \<ge> 6 / 10)"
      by (simp add: coverage_spec_def iou_spec_def)
    with True Cons.IH show ?thesis by (simp add: Let_def)
  next
    case False
    from intersection_area_bounds [OF False] have "bbox_area (bbox T) \<noteq> 0" by linarith
    with False assms Cons.IH show ?thesis
      by (auto simp: Let_def coverage_spec_def iou_spec_def)
  qed
qed

lemma signature_inside_stamp_iff:
  "signature_inside_stamp S stamps =
     (\<exists>T \<in> set stamps. coverage_spec S T \<ge> 9 / 10 \<or> iou_spec S T \<ge> 6 / 10)"
proof (cases "bbox_area (bbox S) = 0")
  case True
  then have "\<And>T. \<not> (coverage_spec S T \<ge> 9 / 10 \<or> iou_spec S T \<ge> 6 / 10)"
    by (simp add: coverage_spec_def iou_spec_def)
  with True show ?thesis by (simp add: signature_inside_stamp_def)
next
  case False
  then show ?thesis
    using inside_stamp_loop_iff [of "bbox_area (bbox S)" S stamps]
    by (simp add: signature_inside_stamp_def Let_def)
qed

lemma overlap_loop_filter:
  "overlap_loop stamps filtered dets =
     filtered @ filter (\<lambda>det. \<not> (label det = ''signature'' \<and> signature_inside_stamp det stamps)) dets"
  by (induction dets arbitrary: filtered) simp_all

lemma suppressed_spec_stamps:
  "suppressed_spec dets S =
     (label S = ''signature'' \<and> signature_inside_stamp S (filter (\<lambda>det. label det = ''stamp'') dets))"
  by (auto simp: suppressed_spec_def signature_inside_stamp_iff)

lemma filter_signature_overlaps_eq:
  "filter_signature_overlaps dets = filter (\<lambda>S. \<not> suppressed_spec dets S) dets"
proof (cases "filter (\<lambda>det. label det = ''stamp'') dets = []")
  case True
  then have "\<And>S. \<not> suppressed_spec dets S"
    by (simp add: suppressed_spec_stamps signature_inside_stamp_iff)
  with True show ?thesis by (simp add: filter_signature_overlaps_def)
next
  case False
  then have "dets \<noteq> []" by auto
  with False show ?thesis
    by (simp add: filter_signature_overlaps_def overlap_loop_filter suppressed_spec_stamps Let_def)
qed

text \<open>
  C5: a signature is dropped by \<open>filter_signature_overlaps\<close> exactly when some stamp of
  the list covers at least 0.9 of it or has an intersection over union of at least 0.6
  with it. The result is the input list without the dropped signatures, in the same
  order, every kept detection unchanged. Detections with another label are all kept, and
  so is a signature without area. (The equation also holds for a list without stamps,
  where nothing is dropped.)
\<close>

theorem C5_overlap_suppression:
  "filter_signature_overlaps dets = filter (\<lambda>S. \<not> suppressed_spec dets S) dets \<and>
   (\<forall>S \<in> set dets.
      (S \<in> set (filter_signature_overlaps dets)) =
      (\<not> (label S = ''signature'' \<and>
          (\<exists>T \<in> set dets. label T = ''stamp'' \<and>
             (coverage_spec S T \<ge> 9 / 10 \<or> iou_spec S T \<ge> 6 / 10))))) \<and>
   (\<forall>S \<in> set dets. label S \<noteq> ''signature'' \<longrightarrow> S \<in> set (filter_signature_overlaps dets)) \<and>
   (\<forall>S \<in> set dets. bbox_area (bbox S) = 0 \<longrightarrow> S \<in> set (filter_signature_overlaps dets))"
proof -
  have eq: "filter_signature_overlaps dets = filter (\<lambda>S. \<not> suppressed_spec dets S) dets"
    by (rule filter_signature_overlaps_eq)
  have zero: "\<not> suppressed_spec dets S" if "bbox_area (bbox S) = 0" for S
    using that by (simp add: suppressed_spec_def coverage_spec_def iou_spec_def)
  have other: "\<not> suppressed_spec dets S" if "label S \<noteq> ''signature''" for S
    using that by (simp add: suppressed_spec_def)
  show ?thesis
    using zero other by (simp add: eq) (simp add: suppressed_spec_def)
qed

theorem C5_overlap_suppression_witness:
  "filter_signature_overlaps
     [\<lparr>label = ''stamp'', confidence = 9 / 10, bbox = (0, 0, 200, 200)\<rparr>,
      \<lparr>label = ''signature'', confidence = 8 / 10, bbox = (0, 0, 50, 50)\<rparr>,
      \<lparr>label = ''signature'', confidence = 7 / 10, bbox = (300, 300, 350, 350)\<rparr>,
      \<lparr>label = ''signature'', confidence = 6 / 10, bbox = (10, 10, 10, 40)\<rparr>] =
     [\<lparr>label = ''stamp'', confidence = 9 / 10, bbox = (0, 0, 200, 200)\<rparr>,
      \<lparr>label = ''signature'', confidence = 7 / 10, bbox = (300, 300, 350, 350)\<rparr>,
      \<lparr>label = ''signature'', confidence = 6 / 10, bbox = (10, 10, 10, 40)\<rparr>]"
  using C5_overlap_suppression
    [of "[\<lparr>label = ''stamp'', confidence = 9 / 10, bbox = (0, 0, 200, 200)\<rparr>,
      \<lparr>label = ''signature'', confidence = 8 / 10, bbox = (0, 0, 50, 50)\<rparr>,
      \<lparr>label = ''signature'', confidence = 7 / 10, bbox = (300, 300, 350, 350)\<rparr>,
      \<lparr>label = ''signature'', confidence = 6 / 10, bbox = (10, 10, 10, 40)\<rparr>]"]
  by (simp add: suppressed_spec_def coverage_spec_def iou_spec_def)

section \<open>Properties of the review classifier\<close>

lemma review_loop_iff:
  "lo \<le> hi \<Longrightarrow> review_loop lo hi dets = (\<exists>det \<in> set dets. confidence det < hi)"
  by (induction dets) auto

text \<open>
  C9: with thresholds that are not negative (the specification takes them in (0,1)),
  the lower band of the code is \<open>0.6 * low_conf_threshold\<close>, and the page is flagged
  exactly when some detection on it has a confidence below
  \<open>review_high = max(review_low, 0.6 * high_conf_threshold)\<close>. A page with no detection
  and no QR hit is not flagged.
\<close>

theorem C9_review_below_high:
  "(0 \<le> low_conf_threshold s \<longrightarrow>
      analyze_review_need s dets qr_hits =
        (\<exists>det \<in> set dets. confidence det < review_high_spec s)) \<and>
   analyze_review_need s [] [] = False"
proof (intro conjI impI)
  assume low: "0 \<le> low_conf_threshold s"
  then have lo: "max 0 (low_conf_threshold s * (6 / 10)) = review_low_spec s"
    by (simp add: review_low_spec_def)
  have hi: "max (review_low_spec s) (high_conf_threshold s * (6 / 10)) = review_high_spec s"
    by (simp add: review_high_spec_def mult.commute)
  have "review_low_spec s \<le> review_high_spec s"
    by (simp add: review_high_spec_def)
  then have loop: "review_loop (review_low_spec s) (review_high_spec s) dets =
          (\<exists>det \<in> set dets. confidence det < review_high_spec s)"
    by (rule review_loop_iff)
  have "analyze_review_need s dets qr_hits =
          (if dets = [] \<and> qr_hits = [] then False
           else review_loop (review_low_spec s) (review_high_spec s) dets)"
    unfolding analyze_review_need_def Let_def lo hi by (rule refl)
  with loop show "analyze_review_need s dets qr_hits =
          (\<exists>det \<in> set dets. confidence det < review_high_spec s)"
    by auto
next
  show "analyze_review_need s [] [] = False"
    by (simp add: analyze_review_need_def)
qed

theorem C9_review_below_high_witness:
  "analyze_review_need settings
     [\<lparr>label = ''stamp'', confidence = 9 / 10, bbox = (0, 0, 200, 200)\<rparr>,
      \<lparr>label = ''signature'', confidence = 4 / 10, bbox = (0, 0, 50, 50)\<rparr>] [] = True \<and>
   analyze_review_need settings
     [\<lparr>label = ''stamp'', confidence = 9 / 10, bbox = (0, 0, 200, 200)\<rparr>] [] = False \<and>
   review_high_spec settings = 48 / 100"
proof -
  have low: "0 \<le> low_conf_threshold settings"
    by (simp add: settings_def)
  have hi: "review_high_spec settings = 48 / 100"
    by (simp add: review_high_spec_def review_low_spec_def settings_def)
  from C9_review_below_high [of settings] low hi show ?thesis
    by simp
qed

text \<open>
  C10: a page without detections is never flagged, however many QR hits it has: the
  loop of \<open>analyze_review_need\<close> runs over the detections only. When the detector finds
  nothing on a page, the step of \<open>process_job\<close> for that page still adds the number of
  QR hits to the count \<open>qr\<close> of the summary and records the hits in a page result that
  is not flagged.
\<close>

theorem C10_qr_hits_never_flag:
  "analyze_review_need s [] qr_hits = False \<and>
   (imread w page_path = Some img \<and> detect w img = Inr [] \<and> qr_detect w img = Inr qr_hits \<and>
    summary_counts ''qr'' = Some c \<and>
    page_step w s page_path (page_results, summary_counts) = Inr (page_results', summary_counts') \<longrightarrow>
      summary_counts' ''qr'' = Some (c + int (length qr_hits)) \<and>
      (\<exists>page. page_results' = page_results @ [page] \<and> detections page = [] \<and>
         qr_codes page = qr_hits \<and> requires_review page = False))"
proof (rule conjI)
  show "analyze_review_need s [] qr_hits = False"
    by (simp add: analyze_review_need_def Let_def)
next
  have r: "analyze_review_need s [] qr_hits = False"
    by (simp add: analyze_review_need_def Let_def)
  show "imread w page_path = Some img \<and> detect w img = Inr [] \<and> qr_detect w img = Inr qr_hits \<and>
    summary_counts ''qr'' = Some c \<and>
    page_step w s page_path (page_results, summary_counts) = Inr (page_results', summary_counts') \<longrightarrow>
      summary_counts' ''qr'' = Some (c + int (length qr_hits)) \<and>
      (\<exists>page. page_results' = page_results @ [page] \<and> detections page = [] \<and>
         qr_codes page = qr_hits \<and> requires_review page = False)"
    using r
    by (auto simp: page_step_def filter_signature_overlaps_def Let_def
        split: option.splits sum.splits if_splits)
qed

theorem C10_qr_hits_never_flag_witness:
  "\<exists>page counts.
     page_step qr_only_world settings ''page_1.png''
       ([], [''signature'' \<mapsto> 0, ''stamp'' \<mapsto> 0, ''qr'' \<mapsto> 0]) = Inr ([page], counts) \<and>
     counts ''qr'' = Some 1 \<and> length (qr_codes page) = 1 \<and> requires_review page = False"
proof -
  obtain page counts where st:
    "page_step qr_only_world settings ''page_1.png''
       ([], [''signature'' \<mapsto> 0, ''stamp'' \<mapsto> 0, ''qr'' \<mapsto> 0]) = Inr ([page], counts)"
    by (simp add: page_step_def qr_only_world_def two_page_world_def settings_def
        filter_signature_overlaps_def)
  from C10_qr_hits_never_flag
    [where w = qr_only_world and s = settings and page_path = "''page_1.png''"
       and img = "''page_1.png''"
       and qr_hits = "[\<lparr>qr_text = codepoints ''https://a.b'',
                         polygon = [(100, 100), (200, 100), (200, 200), (100, 200)]\<rparr>]"
       and summary_counts = "[''signature'' \<mapsto> 0, ''stamp'' \<mapsto> 0, ''qr'' \<mapsto> 0]"
       and c = 0 and page_results = "[]" and page_results' = "[page]"
       and summary_counts' = counts]
    st
  have "counts ''qr'' = Some 1 \<and> length (qr_codes page) = 1 \<and> requires_review page = False"
    by (simp add: qr_only_world_def two_page_world_def)
  with st show ?thesis by blast
qed

section \<open>Properties of the QR candidate filter\<close>

lemma py_min_nonempty: "xs \<noteq> [] \<Longrightarrow> py_min xs = Inr (Min (set xs))"
  by (cases xs) (simp_all add: Min.set_eq_fold [symmetric])

lemma py_max_nonempty: "xs \<noteq> [] \<Longrightarrow> py_max xs = Inr (Max (set xs))"
  by (cases xs) (simp_all add: Max.set_eq_fold [symmetric])

lemma edge_lengths_empty: "(edge_lengths hyp quad = []) = (quad = [])"
  by (simp add: edge_lengths_def)

lemma edge_lengths_eq: "edge_lengths hyp quad = quad_edges hyp quad"
proof (rule nth_equalityI)
  show "length (edge_lengths hyp quad) = length (quad_edges hyp quad)"
    by (simp add: edge_lengths_def quad_edges_def)
next
  fix i assume "i < length (edge_lengths hyp quad)"
  then have i: "i < length quad" by (simp add: edge_lengths_def)
  then have "rotate1 quad ! i = quad ! ((i + 1) mod length quad)"
    by (simp add: nth_rotate1)
  with i show "edge_lengths hyp quad ! i = quad_edges hyp quad ! i"
    by (simp add: edge_lengths_def quad_edges_def split: prod.splits)
qed

lemma strip_empty: "strip [] = []"
  by (simp add: strip_def)

lemma filter_body_rules:
  assumes "quad \<noteq> []"
  shows "filter_body fp image_area txt quad =
           Inr (body_rules (np_hypot fp) (truediv fp) image_area txt quad)"
proof -
  have m: "py_min (map fst quad) = Inr (Min (set (map fst quad)))"
    "py_max (map fst quad) = Inr (Max (set (map fst quad)))"
    "py_min (map snd quad) = Inr (Min (set (map snd quad)))"
    "py_max (map snd quad) = Inr (Max (set (map snd quad)))"
    using assms by (simp_all add: py_min_nonempty py_max_nonempty)
  have e: "edge_lengths (np_hypot fp) quad \<noteq> []"
    "py_min (edge_lengths (np_hypot fp) quad) = Inr (float_min_edge (np_hypot fp) quad)"
    "py_max (edge_lengths (np_hypot fp) quad) = Inr (float_max_edge (np_hypot fp) quad)"
    using assms by (simp_all add: py_min_nonempty py_max_nonempty edge_lengths_empty
        float_min_edge_def float_max_edge_def edge_lengths_eq [symmetric])
  have t: "txt = [] \<Longrightarrow> length (strip txt) < 4"
    by (simp add: strip_empty)
  show ?thesis
    unfolding filter_body_def Let_def m e sum.case
      width_px_def [symmetric] height_px_def [symmetric]
    using t e(1)
    by (auto simp: body_rules_def MIN_TEXT_LENGTH_def MIN_SIDE_PX_def MIN_QR_AREA_RATIO_def
        MAX_QR_AREA_RATIO_def ASPECT_RATIO_MIN_def ASPECT_RATIO_MAX_def EDGE_RATIO_MAX_def)
qed


lemma body_rules_float:
  "body_rules hyp dv (max 1 (int h * int w)) txt quad = qr_rules_float hyp dv h w txt quad"
proof (cases "h * w = 0")
  case True
  then have a: "max 1 (int h * int w) = 1" by auto
  have "\<not> real_of_int (width_px quad * height_px quad) \<le> 3 / 100"
    if "48 \<le> width_px quad" "48 \<le> height_px quad"
  proof -
    from that have "48 * 48 \<le> width_px quad * height_px quad"
      by (intro mult_mono) auto
    then have "(2304::real) \<le> real_of_int (width_px quad * height_px quad)"
      by linarith
    then show ?thesis by linarith
  qed
  with True show ?thesis
    unfolding body_rules_def qr_rules_float_def size_rules_def a by (auto simp: mult.commute)
next
  case False
  then have "0 < h" "0 < w" by auto
  then have "0 < int h * int w" by simp
  then have "1 \<le> int h * int w" by linarith
  then have a: "max 1 (int h * int w) = int h * int w" by simp
  have b: "real_of_int (int h * int w) = real w * real h" by simp
  from False show ?thesis
    unfolding body_rules_def qr_rules_float_def size_rules_def area_ratio_spec_def a b by auto
qed

lemma filter_loop_filter:
  assumes "\<forall>(t, q) \<in> set cands. body t q = Inr (P t q)"
  shows "filter_loop body cands fd fb =
           Inr (fd @ map fst (filter (\<lambda>(t, q). P t q) cands),
                fb @ map snd (filter (\<lambda>(t, q). P t q) cands))"
  using assms by (induction cands arbitrary: fd fb) auto

lemma QRDetector_filter_eq:
  assumes "\<forall>quad \<in> set boxes. quad \<noteq> []"
  shows "QRDetector_filter fp decoded boxes (h, w) =
           Inr (map fst (filter (\<lambda>(t, q). qr_rules_float (np_hypot fp) (truediv fp) h w t q)
                          (zip decoded boxes)),
                map snd (filter (\<lambda>(t, q). qr_rules_float (np_hypot fp) (truediv fp) h w t q)
                          (zip decoded boxes)))"
proof (cases "decoded = [] \<or> boxes = []")
  case True
  then show ?thesis by (auto simp: QRDetector_filter_def)
next
  case False
  have "\<forall>(t, q) \<in> set (zip decoded boxes).
          filter_body fp (max 1 (int h * int w)) t q =
            Inr (qr_rules_float (np_hypot fp) (truediv fp) h w t q)"
    using assms by (auto simp: filter_body_rules body_rules_float dest: set_zip_rightD)
  from filter_loop_filter [OF this, of "[]" "[]"] False show ?thesis
    by (simp add: QRDetector_filter_def)
qed


lemma euclid_axis: "euclid a 0 = \<bar>real_of_int a\<bar>" "euclid 0 b = \<bar>real_of_int b\<bar>"
  by (simp_all add: euclid_def)

lemma text_length: "length (strip (codepoints ''https://a.b'')) = 11"
  "length (strip (codepoints ''ab'')) = 2"
  by (simp_all add: strip_def isspace_def codepoints_def)

lemma size_examples:
  "size_rules 2000 2000 (codepoints ''https://a.b'') [(100, 100), (200, 100), (200, 200), (100, 200)]"
  "\<not> size_rules 2000 2000 (codepoints ''ab'') [(100, 100), (200, 100), (200, 200), (100, 200)]"
  "size_rules 2000 2000 (codepoints ''https://a.b'') [(100, 100), (228, 100), (228, 264), (100, 264)]"
  "size_rules 2000 2000 (codepoints ''https://a.b'') [(88, 0), (93, 110), (5, 114), (0, 4)]"
  by (simp_all add: size_rules_def text_length width_px_def height_px_def area_ratio_spec_def)

lemma float_edges_examples:
  "edge_lengths example_hypot [(100, 100), (200, 100), (200, 200), (100, 200)] = [100, 100, 100, 100]"
  "edge_lengths example_hypot [(100, 100), (228, 100), (228, 264), (100, 264)] = [128, 164, 128, 164]"
  "edge_lengths example_hypot [(88, 0), (93, 110), (5, 114), (0, 4)] =
     [7748554181609686 / 2 ^ 46, 6198843345287748 / 2 ^ 46,
      7748554181609686 / 2 ^ 46, 6198843345287748 / 2 ^ 46]"
  by (simp_all add: edge_lengths_def example_hypot_def euclid_axis)

lemma float_rules_examples:
  "qr_rules_float example_hypot example_truediv 2000 2000 (codepoints ''https://a.b'') [(100, 100), (200, 100), (200, 200), (100, 200)]"
  "\<not> qr_rules_float example_hypot example_truediv 2000 2000 (codepoints ''ab'') [(100, 100), (200, 100), (200, 200), (100, 200)]"
  "\<not> qr_rules_float example_hypot example_truediv 2000 2000 (codepoints ''https://a.b'') [(100, 100), (228, 100), (228, 264), (100, 264)]"
  "\<not> qr_rules_float example_hypot example_truediv 2000 2000 (codepoints ''https://a.b'') [(88, 0), (93, 110), (5, 114), (0, 4)]"
  by (simp_all add: qr_rules_float_def size_examples float_min_edge_def float_max_edge_def
      edge_lengths_eq [symmetric] float_edges_examples example_truediv_def)









section \<open>Properties of the engine arbitration\<close>

text \<open>
  C7: \<open>merge_results\<close> returns the primary pair whenever it has a text and the fallback
  pair otherwise, and \<open>QRDetector.detect\<close> returns the records of the first engine
  whenever its filtered result has a text and those of the second engine only when it
  has none. The result is the result of one engine, never a mix of the two.
\<close>

theorem C7_arbitration:
  "(fst primary \<noteq> [] \<longrightarrow> merge_results primary fallback = primary) \<and>
   (fst primary = [] \<longrightarrow> merge_results primary fallback = fallback) \<and>
   (QRDetector_filter fp (fst cv) (snd cv) shape = Inr (decoded_cv, boxes_cv) \<and> decoded_cv \<noteq> [] \<longrightarrow>
      QRDetector_detect fp shape cv zbar = Inr (qr_records decoded_cv boxes_cv)) \<and>
   (QRDetector_filter fp (fst cv) (snd cv) shape = Inr ([], boxes_cv) \<and>
    QRDetector_filter fp (fst zbar) (snd zbar) shape = Inr (decoded_zbar, boxes_zbar) \<longrightarrow>
      QRDetector_detect fp shape cv zbar = Inr (qr_records decoded_zbar boxes_zbar))"
  by (cases primary) (simp add: merge_results_def QRDetector_detect_def)

theorem C7_arbitration_witness:
  "merge_results ([codepoints ''one''], [[(100, 100), (200, 100), (200, 200), (100, 200)]]) ([codepoints ''two''], [[(100, 100), (228, 100), (228, 264), (100, 264)]]) =
     ([codepoints ''one''], [[(100, 100), (200, 100), (200, 200), (100, 200)]]) \<and>
   merge_results ([], []) ([codepoints ''two''], [[(100, 100), (228, 100), (228, 264), (100, 264)]]) = ([codepoints ''two''], [[(100, 100), (228, 100), (228, 264), (100, 264)]]) \<and>
   QRDetector_detect example_doubles (2000, 2000)
     ([codepoints ''https://a.b''], [[(100, 100), (200, 100), (200, 200), (100, 200)]]) ([codepoints ''https://zbar''], [[(100, 100), (200, 100), (200, 200), (100, 200)]]) =
     Inr [\<lparr>qr_text = codepoints ''https://a.b'', polygon = [(100, 100), (200, 100), (200, 200), (100, 200)]\<rparr>] \<and>
   QRDetector_detect example_doubles (2000, 2000)
     ([codepoints ''ab''], [[(100, 100), (200, 100), (200, 200), (100, 200)]]) ([codepoints ''https://zbar''], [[(100, 100), (200, 100), (200, 200), (100, 200)]]) =
     Inr [\<lparr>qr_text = codepoints ''https://zbar'', polygon = [(100, 100), (200, 100), (200, 200), (100, 200)]\<rparr>]"
proof -
  have len: "length (strip (codepoints ''https://zbar'')) = 12"
    by (simp add: strip_def isspace_def codepoints_def)
  have ok: "qr_rules_float example_hypot example_truediv 2000 2000 (codepoints ''https://a.b'') [(100, 100), (200, 100), (200, 200), (100, 200)]"
    "\<not> qr_rules_float example_hypot example_truediv 2000 2000 (codepoints ''ab'') [(100, 100), (200, 100), (200, 200), (100, 200)]"
    by (simp_all add: float_rules_examples)
  have ok2: "qr_rules_float example_hypot example_truediv 2000 2000 (codepoints ''https://zbar'') [(100, 100), (200, 100), (200, 200), (100, 200)]"
    using ok(1) len text_length(1) by (simp add: qr_rules_float_def size_rules_def)
  have f1: "QRDetector_filter example_doubles (fst ([codepoints ''https://a.b''], [[(100, 100), (200, 100), (200, 200), (100, 200)]]))
              (snd ([codepoints ''https://a.b''], [[(100, 100), (200, 100), (200, 200), (100, 200)]])) (2000, 2000) =
              Inr ([codepoints ''https://a.b''], [[(100, 100), (200, 100), (200, 200), (100, 200)]])"
    using ok ok2 by (simp add: QRDetector_filter_eq example_doubles_def)
  have f2: "QRDetector_filter example_doubles (fst ([codepoints ''https://zbar''], [[(100, 100), (200, 100), (200, 200), (100, 200)]]))
              (snd ([codepoints ''https://zbar''], [[(100, 100), (200, 100), (200, 200), (100, 200)]])) (2000, 2000) =
              Inr ([codepoints ''https://zbar''], [[(100, 100), (200, 100), (200, 200), (100, 200)]])"
    using ok ok2 by (simp add: QRDetector_filter_eq example_doubles_def)
  have f3: "QRDetector_filter example_doubles (fst ([codepoints ''ab''], [[(100, 100), (200, 100), (200, 200), (100, 200)]]))
              (snd ([codepoints ''ab''], [[(100, 100), (200, 100), (200, 200), (100, 200)]])) (2000, 2000) = Inr ([], [])"
    using ok ok2 by (simp add: QRDetector_filter_eq example_doubles_def)
  have m1: "merge_results ([codepoints ''one''], [[(100, 100), (200, 100), (200, 200), (100, 200)]]) ([codepoints ''two''], [[(100, 100), (228, 100), (228, 264), (100, 264)]]) =
              ([codepoints ''one''], [[(100, 100), (200, 100), (200, 200), (100, 200)]])"
    using C7_arbitration [where primary = "([codepoints ''one''], [[(100, 100), (200, 100), (200, 200), (100, 200)]])"
        and fallback = "([codepoints ''two''], [[(100, 100), (228, 100), (228, 264), (100, 264)]])"]
    by simp
  have m2: "merge_results ([], []) ([codepoints ''two''], [[(100, 100), (228, 100), (228, 264), (100, 264)]]) = ([codepoints ''two''], [[(100, 100), (228, 100), (228, 264), (100, 264)]])"
    using C7_arbitration [where primary = "([], [])" and fallback = "([codepoints ''two''], [[(100, 100), (228, 100), (228, 264), (100, 264)]])"]
    by simp
  have d1: "QRDetector_detect example_doubles (2000, 2000)
              ([codepoints ''https://a.b''], [[(100, 100), (200, 100), (200, 200), (100, 200)]]) ([codepoints ''https://zbar''], [[(100, 100), (200, 100), (200, 200), (100, 200)]]) =
     Inr (qr_records [codepoints ''https://a.b''] [[(100, 100), (200, 100), (200, 200), (100, 200)]])"
    using C7_arbitration [where cv = "([codepoints ''https://a.b''], [[(100, 100), (200, 100), (200, 200), (100, 200)]])"
        and shape = "(2000, 2000)" and fp = example_doubles
        and decoded_cv = "[codepoints ''https://a.b'']" and boxes_cv = "[[(100, 100), (200, 100), (200, 200), (100, 200)]]"
        and zbar = "([codepoints ''https://zbar''], [[(100, 100), (200, 100), (200, 200), (100, 200)]])"] f1
    by (simp add: codepoints_def)
  have d2: "QRDetector_detect example_doubles (2000, 2000)
              ([codepoints ''ab''], [[(100, 100), (200, 100), (200, 200), (100, 200)]]) ([codepoints ''https://zbar''], [[(100, 100), (200, 100), (200, 200), (100, 200)]]) =
     Inr (qr_records [codepoints ''https://zbar''] [[(100, 100), (200, 100), (200, 200), (100, 200)]])"
    using C7_arbitration [where cv = "([codepoints ''ab''], [[(100, 100), (200, 100), (200, 200), (100, 200)]])" and shape = "(2000, 2000)"
        and fp = example_doubles
        and boxes_cv = "[]" and zbar = "([codepoints ''https://zbar''], [[(100, 100), (200, 100), (200, 200), (100, 200)]])"
        and decoded_zbar = "[codepoints ''https://zbar'']" and boxes_zbar = "[[(100, 100), (200, 100), (200, 200), (100, 200)]]"] f2 f3
    by simp
  from m1 m2 d1 d2 show ?thesis by (simp add: qr_records_def)
qed

section \<open>Properties of the heatmap accumulator\<close>

lemma add_gaussian_shape:
  "map length (add_gaussian_to_heatmap s hm b conf) = map length hm"
  by (auto simp: add_gaussian_to_heatmap_def nth_enumerate_eq intro!: nth_equalityI)

lemma add_gaussian_cell:
  assumes "y < length hm" "x < length (hm ! y)"
  shows "add_gaussian_to_heatmap s hm b conf ! y ! x = hm ! y ! x + gaussian s b x y * conf"
  using assms by (simp add: add_gaussian_to_heatmap_def nth_enumerate_eq)

lemma gaussian_nonneg: "0 \<le> gaussian s b x y"
  by (cases b) (simp add: Let_def)

lemma add_gaussian_nonneg:
  assumes "nonneg hm" "0 \<le> conf"
  shows "nonneg (add_gaussian_to_heatmap s hm b conf)"
proof -
  have "0 \<le> hm ! y ! x + gaussian s b x y * conf" if "y < length hm" "x < length (hm ! y)" for x y
  proof -
    from that have "hm ! y \<in> set hm" "hm ! y ! x \<in> set (hm ! y)" by simp_all
    with assms(1) have "0 \<le> hm ! y ! x" by (auto simp: nonneg_def)
    moreover have "0 \<le> gaussian s b x y * conf"
      using assms(2) gaussian_nonneg by simp
    ultimately show ?thesis by simp
  qed
  then show ?thesis
    by (auto simp: nonneg_def add_gaussian_to_heatmap_def in_set_enumerate_eq)
qed

lemma fold_splat:
  assumes "nonneg hm" "\<forall>d \<in> set dets. 0 \<le> confidence d"
  shows "nonneg (fold (\<lambda>box hm. add_gaussian_to_heatmap s hm (bbox box) (confidence box)) dets hm) \<and>
         map length (fold (\<lambda>box hm. add_gaussian_to_heatmap s hm (bbox box) (confidence box)) dets hm) =
           map length hm"
  using assms
  by (induction dets arbitrary: hm) (simp_all add: add_gaussian_nonneg add_gaussian_shape)

lemma polygon_to_bbox_nonempty:
  "poly \<noteq> [] \<Longrightarrow> \<exists>b. polygon_to_bbox poly = Inr b"
  by (simp add: polygon_to_bbox_def py_min_nonempty py_max_nonempty)

lemma splat_polygons_ok:
  assumes "nonneg hm" "\<forall>poly \<in> set polys. poly \<noteq> []"
  shows "\<exists>hm'. splat_polygons s hm polys = Inr hm' \<and> nonneg hm' \<and> map length hm' = map length hm"
  using assms
proof (induction polys arbitrary: hm)
  case Nil
  then show ?case by simp
next
  case (Cons poly polys)
  from Cons.prems(2) polygon_to_bbox_nonempty [of poly]
  obtain b where b: "polygon_to_bbox poly = Inr b" by auto
  obtain x1 y1 x2 y2 where c: "b = (x1, y1, x2, y2)" by (cases b) auto
  have n: "nonneg (add_gaussian_to_heatmap s hm (x1, y1, x2, y2) (9 / 10))"
    using Cons.prems(1) by (simp add: add_gaussian_nonneg)
  from Cons.IH [OF n] Cons.prems(2) show ?case
    by (simp add: b c add_gaussian_shape)
qed

lemma heatmap_max_nonempty:
  "concat hm \<noteq> [] \<Longrightarrow> heatmap_max hm = Inr (Max (set (concat hm)))"
  by (cases "concat hm") (simp_all add: heatmap_max_def Max.set_eq_fold [symmetric])

lemma normalise_unit:
  assumes "nonneg hm" "concat hm \<noteq> []" "m = Max (set (concat hm))"
  shows "\<forall>row \<in> set (if m > 0 then map (map (\<lambda>v. v / m)) hm else hm). \<forall>v \<in> set row. 0 \<le> v \<and> v \<le> 1"
proof -
  have le: "v \<le> m" if "row \<in> set hm" "v \<in> set row" for row v
    using that assms(3) by (auto intro!: Max_ge)
  have ge: "0 \<le> v" if "row \<in> set hm" "v \<in> set row" for row v
    using that assms(1) by (auto simp: nonneg_def)
  show ?thesis
  proof (cases "m > 0")
    case True
    then show ?thesis using le ge by (auto simp: divide_le_eq)
  next
    case False
    have "0 \<le> v \<and> v \<le> 1" if "row \<in> set hm" "v \<in> set row" for row v
      using le [OF that] ge [OF that] False by linarith
    with False show ?thesis by auto
  qed
qed


lemma zeros_nonneg: "nonneg (replicate height (replicate width 0))"
  by (auto simp: nonneg_def)

text \<open>
  C3 (as stated): the spreads come from the half-extents of the box. For the box
  (0, 0, 100, 40) and the default scale 0.2 the code computes 20 and 8, the full width
  and height times the scale; half the width and half the height would give 10 and 4.
\<close>

theorem C3_sigma_counterexample:
  "sigma_x settings (0, 0, 100, 40) = 20 \<and> sigma_x_spec settings (0, 0, 100, 40) = 10 \<and>
   sigma_y settings (0, 0, 100, 40) = 8 \<and> sigma_y_spec settings (0, 0, 100, 40) = 4 \<and>
   sigma_x settings (0, 0, 100, 40) \<noteq> sigma_x_spec settings (0, 0, 100, 40) \<and>
   sigma_y settings (0, 0, 100, 40) \<noteq> sigma_y_spec settings (0, 0, 100, 40)"
  by (simp add: settings_def)

text \<open>
  C3 (amended): for every box splatted into the accumulator, the Gaussian added to the
  cell in column \<open>x\<close> and row \<open>y\<close> is centred at the midpoint of the box and has the
  spreads \<open>sigma_x = max(1, w * sigma_scale)\<close> and \<open>sigma_y = max(1, h * sigma_scale)\<close>,
  where \<open>w = max(1, x2 - x1)\<close> and \<open>h = max(1, y2 - y1)\<close> are the full width and the full
  height of the box, at least 1; \<open>sigma_scale\<close> is 0.2 by default.
\<close>

theorem C3_sigma_full_extent:
  "(y < length hm \<and> x < length (hm ! y) \<longrightarrow>
      add_gaussian_to_heatmap s hm (x1, y1, x2, y2) conf ! y ! x =
        hm ! y ! x +
        exp (- ((real_of_int (int x - (x1 + x2) div 2))\<^sup>2 /
                  (2 * (max 1 (real_of_int (max 1 (x2 - x1)) * heatmap_sigma_scale s))\<^sup>2) +
                (real_of_int (int y - (y1 + y2) div 2))\<^sup>2 /
                  (2 * (max 1 (real_of_int (max 1 (y2 - y1)) * heatmap_sigma_scale s))\<^sup>2))) * conf) \<and>
   sigma_x s (x1, y1, x2, y2) = max 1 (real_of_int (max 1 (x2 - x1)) * heatmap_sigma_scale s) \<and>
   sigma_y s (x1, y1, x2, y2) = max 1 (real_of_int (max 1 (y2 - y1)) * heatmap_sigma_scale s) \<and>
   heatmap_sigma_scale settings = 2 / 10"
proof -
  have "add_gaussian_to_heatmap s hm (x1, y1, x2, y2) conf ! y ! x =
          hm ! y ! x + gaussian s (x1, y1, x2, y2) x y * conf"
    if "y < length hm" "x < length (hm ! y)"
    using that by (rule add_gaussian_cell)
  then show ?thesis
    by (simp add: Let_def settings_def)
qed

theorem C3_sigma_full_extent_witness:
  "add_gaussian_to_heatmap settings [[0, 0], [0, 0]] (0, 0, 100, 40) (9 / 10) ! 1 ! 1 =
     exp (- (2401 / 800 + 361 / 128)) * (9 / 10) \<and>
   sigma_x settings (0, 0, 100, 40) = 20 \<and> sigma_y settings (0, 0, 100, 40) = 8"
  using C3_sigma_full_extent
    [where y = 1 and x = 1 and hm = "[[0, 0], [0, 0]]" and s = settings
       and ?x1.0 = 0 and ?y1.0 = 0 and ?x2.0 = 100 and ?y2.0 = 40 and conf = "9 / 10"]
  by (simp add: settings_def)

text \<open>
  C8: for an image with cells, detections with confidences in [0,1] and QR polygons
  with at least one point, \<open>generate_heatmap\<close> returns the accumulator of all splats,
  divided by its largest cell when that is positive and unchanged otherwise; the result
  has the shape of the image and every cell of it lies in [0,1]. Without detections and
  QR polygons it returns the all-zero accumulator.
\<close>

theorem C8_heatmap_unit_interval:
  "(0 < height \<and> 0 < width \<and> (\<forall>d \<in> set dets. 0 \<le> confidence d \<and> confidence d \<le> 1) \<and>
    (\<forall>poly \<in> set qr_polygons. poly \<noteq> []) \<longrightarrow>
      (\<exists>hm acc m.
         generate_heatmap s (height, width) dets qr_polygons = Inr hm \<and>
         splat_polygons s
           (fold (\<lambda>box hm. add_gaussian_to_heatmap s hm (bbox box) (confidence box)) dets
              (replicate height (replicate width 0)))
           qr_polygons = Inr acc \<and>
         heatmap_max acc = Inr m \<and> m = Max (set (concat acc)) \<and>
         hm = (if m > 0 then map (map (\<lambda>v. v / m)) acc else acc) \<and>
         map length hm = replicate height width \<and>
         (\<forall>row \<in> set hm. \<forall>v \<in> set row. 0 \<le> v \<and> v \<le> 1))) \<and>
   (0 < height \<and> 0 < width \<longrightarrow>
      generate_heatmap s (height, width) [] [] = Inr (replicate height (replicate width 0)))"
proof (intro conjI impI)
  assume a: "0 < height \<and> 0 < width \<and> (\<forall>d \<in> set dets. 0 \<le> confidence d \<and> confidence d \<le> 1) \<and>
    (\<forall>poly \<in> set qr_polygons. poly \<noteq> [])"
  define hm0 :: heatmap where "hm0 = replicate height (replicate width 0)"
  define hm1 where
    "hm1 = fold (\<lambda>box hm. add_gaussian_to_heatmap s hm (bbox box) (confidence box)) dets hm0"
  have n1: "nonneg hm1" and l1: "map length hm1 = map length hm0"
    using fold_splat [of hm0 dets s] a zeros_nonneg by (simp_all add: hm1_def hm0_def)
  from splat_polygons_ok [OF n1, of qr_polygons s] a
  obtain hm2 where s2: "splat_polygons s hm1 qr_polygons = Inr hm2" and n2: "nonneg hm2"
    and l2: "map length hm2 = map length hm1"
    by blast
  have shape: "map length hm2 = replicate height width"
    by (simp add: l2 l1 hm0_def)
  have "length (concat hm2) = height * width"
    by (simp add: length_concat shape sum_list_replicate)
  moreover from a have "0 < height * width" by simp
  ultimately have "length (concat hm2) \<noteq> 0" by simp
  then have ne: "concat hm2 \<noteq> []" by (simp only: length_0_conv not_False_eq_True)
  define m where "m = Max (set (concat hm2))"
  have mx: "heatmap_max hm2 = Inr m"
    using heatmap_max_nonempty [OF ne] by (simp add: m_def)
  have g: "generate_heatmap s (height, width) dets qr_polygons =
             Inr (if m > 0 then map (map (\<lambda>v. v / m)) hm2 else hm2)"
    by (simp add: generate_heatmap_def Let_def hm0_def [symmetric] hm1_def [symmetric] s2 mx)
  have sh: "map length (if m > 0 then map (map (\<lambda>v. v / m)) hm2 else hm2) = replicate height width"
    using shape by (simp add: comp_def)
  have s2': "splat_polygons s
           (fold (\<lambda>box hm. add_gaussian_to_heatmap s hm (bbox box) (confidence box)) dets
              (replicate height (replicate width 0)))
           qr_polygons = Inr hm2"
    using s2 by (simp add: hm1_def hm0_def)
  from g s2' mx m_def sh normalise_unit [OF n2 ne m_def]
  show "\<exists>hm acc m.
         generate_heatmap s (height, width) dets qr_polygons = Inr hm \<and>
         splat_polygons s
           (fold (\<lambda>box hm. add_gaussian_to_heatmap s hm (bbox box) (confidence box)) dets
              (replicate height (replicate width 0)))
           qr_polygons = Inr acc \<and>
         heatmap_max acc = Inr m \<and> m = Max (set (concat acc)) \<and>
         hm = (if m > 0 then map (map (\<lambda>v. v / m)) acc else acc) \<and>
         map length hm = replicate height width \<and>
         (\<forall>row \<in> set hm. \<forall>v \<in> set row. 0 \<le> v \<and> v \<le> 1)"
    by blast
next
  assume a: "0 < height \<and> 0 < width"
  then have "concat (replicate height (replicate width (0::real))) \<noteq> []"
    by (cases height; cases width) simp_all
  from heatmap_max_nonempty [OF this] a
  have "heatmap_max (replicate height (replicate width 0)) = Inr 0"
    by (simp add: set_concat)
  then show "generate_heatmap s (height, width) [] [] = Inr (replicate height (replicate width 0))"
    by (simp add: generate_heatmap_def)
qed

theorem C8_heatmap_unit_interval_witness:
  "(\<exists>hm. generate_heatmap settings (2, 3)
            [\<lparr>label = ''stamp'', confidence = 9 / 10, bbox = (0, 0, 2, 1)\<rparr>]
            [[(0, 0), (1, 0), (1, 1), (0, 1)]] = Inr hm \<and>
         map length hm = [3, 3] \<and>
         (\<forall>row \<in> set hm. \<forall>v \<in> set row. 0 \<le> v \<and> v \<le> 1)) \<and>
   generate_heatmap settings (2, 3) [] [] = Inr [[0, 0, 0], [0, 0, 0]]"
proof -
  note inst = C8_heatmap_unit_interval
    [where height = 2 and width = 3 and s = settings
       and dets = "[\<lparr>label = ''stamp'', confidence = 9 / 10, bbox = (0, 0, 2, 1)\<rparr>]"
       and qr_polygons = "[[(0, 0), (1, 0), (1, 1), (0, 1)]]"]
  have h: "(0::nat) < 2 \<and> (0::nat) < 3 \<and>
     (\<forall>d \<in> set [\<lparr>label = ''stamp'', confidence = 9 / 10, bbox = (0, 0, 2, 1)\<rparr>].
        0 \<le> confidence d \<and> confidence d \<le> 1) \<and>
     (\<forall>poly \<in> set [[(0::int, 0::int), (1, 0), (1, 1), (0, 1)]]. poly \<noteq> [])"
    by simp
  from inst h obtain hm where
    "generate_heatmap settings (2, 3)
            [\<lparr>label = ''stamp'', confidence = 9 / 10, bbox = (0, 0, 2, 1)\<rparr>]
            [[(0, 0), (1, 0), (1, 1), (0, 1)]] = Inr hm"
    "map length hm = replicate 2 3"
    "\<forall>row \<in> set hm. \<forall>v \<in> set row. 0 \<le> v \<and> v \<le> 1"
    by blast
  moreover from inst have "generate_heatmap settings (2, 3) [] [] = Inr (replicate 2 (replicate 3 0))"
    by simp
  ultimately show ?thesis
    by (auto simp: numeral_2_eq_2 numeral_3_eq_3)
qed

section \<open>Properties of the evaluation matcher\<close>

lemma free_iff: "(k \<in> free gt_boxes M) = (k < length gt_boxes \<and> k \<notin> M)"
  by (auto simp: free_def)

lemma best_loop_split:
  "best_loop fl M pred es (bi, bx) = (v, i) \<Longrightarrow>
   (v = bi \<and> i = bx \<and> (\<forall>(idx, gt) \<in> set es. idx \<notin> M \<longrightarrow> compute_iou fl gt pred \<le> bi)) \<or>
   (\<exists>es1 idx gt es2. es = es1 @ (idx, gt) # es2 \<and> idx \<notin> M \<and> i = int idx \<and>
      v = compute_iou fl gt pred \<and> bi < v \<and>
      (\<forall>(j, g) \<in> set es1. j \<notin> M \<longrightarrow> compute_iou fl g pred < v) \<and>
      (\<forall>(j, g) \<in> set es2. j \<notin> M \<longrightarrow> compute_iou fl g pred \<le> v))"
proof (induction es arbitrary: bi bx)
  case Nil
  then show ?case by simp
next
  case (Cons e es)
  obtain idx gt where e: "e = (idx, gt)" by (cases e)
  let ?u = "compute_iou fl gt pred"
  consider (matched) "idx \<in> M" | (better) "idx \<notin> M" "?u > bi" | (worse) "idx \<notin> M" "\<not> ?u > bi"
    by blast
  then show ?case
  proof cases
    case matched
    with Cons.prems e have run: "best_loop fl M pred es (bi, bx) = (v, i)" by simp
    from Cons.IH [OF run] show ?thesis
    proof
      assume "v = bi \<and> i = bx \<and> (\<forall>(idx, gt) \<in> set es. idx \<notin> M \<longrightarrow> compute_iou fl gt pred \<le> bi)"
      with matched e show ?thesis by auto
    next
      assume "\<exists>es1 idx gt es2. es = es1 @ (idx, gt) # es2 \<and> idx \<notin> M \<and> i = int idx \<and>
        v = compute_iou fl gt pred \<and> bi < v \<and>
        (\<forall>(j, g) \<in> set es1. j \<notin> M \<longrightarrow> compute_iou fl g pred < v) \<and>
        (\<forall>(j, g) \<in> set es2. j \<notin> M \<longrightarrow> compute_iou fl g pred \<le> v)"
      then obtain es1 idx' gt' es2 where s: "es = es1 @ (idx', gt') # es2" "idx' \<notin> M"
        "i = int idx'" "v = compute_iou fl gt' pred" "bi < v"
        "\<forall>(j, g) \<in> set es1. j \<notin> M \<longrightarrow> compute_iou fl g pred < v"
        "\<forall>(j, g) \<in> set es2. j \<notin> M \<longrightarrow> compute_iou fl g pred \<le> v"
        by blast
      have "e # es = (e # es1) @ (idx', gt') # es2" using s(1) by simp
      moreover have "\<forall>(j, g) \<in> set (e # es1). j \<notin> M \<longrightarrow> compute_iou fl g pred < v"
        using s(6) matched e by auto
      ultimately show ?thesis using s(2-5,7) by blast
    qed
  next
    case better
    with Cons.prems e have run: "best_loop fl M pred es (?u, int idx) = (v, i)"
      by (simp add: Let_def)
    from Cons.IH [OF run] show ?thesis
    proof
      assume a: "v = ?u \<and> i = int idx \<and>
        (\<forall>(idx, gt) \<in> set es. idx \<notin> M \<longrightarrow> compute_iou fl gt pred \<le> ?u)"
      have "e # es = [] @ (idx, gt) # es" using e by simp
      moreover have "\<forall>(j, g) \<in> set []. j \<notin> M \<longrightarrow> compute_iou fl g pred < v" by simp
      ultimately show ?thesis using a better by blast
    next
      assume "\<exists>es1 idx' gt' es2. es = es1 @ (idx', gt') # es2 \<and> idx' \<notin> M \<and> i = int idx' \<and>
        v = compute_iou fl gt' pred \<and> ?u < v \<and>
        (\<forall>(j, g) \<in> set es1. j \<notin> M \<longrightarrow> compute_iou fl g pred < v) \<and>
        (\<forall>(j, g) \<in> set es2. j \<notin> M \<longrightarrow> compute_iou fl g pred \<le> v)"
      then obtain es1 idx' gt' es2 where s: "es = es1 @ (idx', gt') # es2" "idx' \<notin> M"
        "i = int idx'" "v = compute_iou fl gt' pred" "?u < v"
        "\<forall>(j, g) \<in> set es1. j \<notin> M \<longrightarrow> compute_iou fl g pred < v"
        "\<forall>(j, g) \<in> set es2. j \<notin> M \<longrightarrow> compute_iou fl g pred \<le> v"
        by blast
      have "e # es = (e # es1) @ (idx', gt') # es2" using s(1) by simp
      moreover have "\<forall>(j, g) \<in> set (e # es1). j \<notin> M \<longrightarrow> compute_iou fl g pred < v"
        using s(5,6) e by auto
      moreover have "bi < v" using better(2) s(5) by linarith
      ultimately show ?thesis using s(2-4,7) by blast
    qed
  next
    case worse
    with Cons.prems e have run: "best_loop fl M pred es (bi, bx) = (v, i)"
      by (simp add: Let_def)
    from Cons.IH [OF run] show ?thesis
    proof
      assume "v = bi \<and> i = bx \<and> (\<forall>(idx, gt) \<in> set es. idx \<notin> M \<longrightarrow> compute_iou fl gt pred \<le> bi)"
      with worse e show ?thesis by auto
    next
      assume "\<exists>es1 idx gt es2. es = es1 @ (idx, gt) # es2 \<and> idx \<notin> M \<and> i = int idx \<and>
        v = compute_iou fl gt pred \<and> bi < v \<and>
        (\<forall>(j, g) \<in> set es1. j \<notin> M \<longrightarrow> compute_iou fl g pred < v) \<and>
        (\<forall>(j, g) \<in> set es2. j \<notin> M \<longrightarrow> compute_iou fl g pred \<le> v)"
      then obtain es1 idx' gt' es2 where s: "es = es1 @ (idx', gt') # es2" "idx' \<notin> M"
        "i = int idx'" "v = compute_iou fl gt' pred" "bi < v"
        "\<forall>(j, g) \<in> set es1. j \<notin> M \<longrightarrow> compute_iou fl g pred < v"
        "\<forall>(j, g) \<in> set es2. j \<notin> M \<longrightarrow> compute_iou fl g pred \<le> v"
        by blast
      have "e # es = (e # es1) @ (idx', gt') # es2" using s(1) by simp
      moreover have "?u < v" using worse(2) s(5) by linarith
      then have "\<forall>(j, g) \<in> set (e # es1). j \<notin> M \<longrightarrow> compute_iou fl g pred < v"
        using s(6) e by auto
      ultimately show ?thesis using s(2-5,7) by blast
    qed
  qed
qed

lemma enumerate_split:
  assumes "enumerate 0 xs = es1 @ (idx, x) # es2"
  shows "idx = length es1 \<and> idx < length xs \<and> x = xs ! idx \<and>
         (\<forall>j < idx. (j, xs ! j) \<in> set es1) \<and>
         (\<forall>j. idx < j \<and> j < length xs \<longrightarrow> (j, xs ! j) \<in> set es2)"
proof -
  have len: "length xs = length es1 + Suc (length es2)"
    using arg_cong [OF assms, of length] by simp
  have nth: "(es1 @ (idx, x) # es2) ! j = (j, xs ! j)" if "j < length xs" for j
    using that nth_enumerate_eq [of j xs 0] assms by simp
  from nth [of "length es1"] len have i: "idx = length es1" "x = xs ! idx"
    by simp_all
  have before: "(j, xs ! j) \<in> set es1" if "j < idx" for j
  proof -
    from that i len have "j < length xs" by simp
    from nth [OF this] that i have "es1 ! j = (j, xs ! j)" by (simp add: nth_append)
    with that i show ?thesis by (metis nth_mem)
  qed
  have after: "(j, xs ! j) \<in> set es2" if "idx < j" "j < length xs" for j
  proof -
    from nth [OF that(2)] that(1) i have "es2 ! (j - idx - 1) = (j, xs ! j)"
      by (simp add: nth_append nth_Cons')
    moreover from that i len have "j - idx - 1 < length es2" by simp
    ultimately show ?thesis by (metis nth_mem)
  qed
  from i len before after show ?thesis by simp
qed

lemma best_loop_enumerate:
  assumes "best_loop fl M pred (enumerate 0 gt_boxes) (0, - 1) = (v, i)"
  shows "(i = - 1 \<and> v = 0 \<and> (\<forall>j \<in> free gt_boxes M. compute_iou fl (gt_boxes ! j) pred \<le> 0)) \<or>
         (0 \<le> i \<and> best_free fl gt_boxes M pred (nat i) \<and>
          v = compute_iou fl (gt_boxes ! nat i) pred \<and> 0 < v)"
proof -
  from best_loop_split [OF assms] show ?thesis
  proof
    assume a: "v = 0 \<and> i = - 1 \<and>
      (\<forall>(idx, gt) \<in> set (enumerate 0 gt_boxes). idx \<notin> M \<longrightarrow> compute_iou fl gt pred \<le> 0)"
    have "compute_iou fl (gt_boxes ! j) pred \<le> 0" if "j \<in> free gt_boxes M" for j
    proof -
      from that have "(j, gt_boxes ! j) \<in> set (enumerate 0 gt_boxes)" "j \<notin> M"
        by (simp_all add: free_iff in_set_enumerate_eq)
      with a show ?thesis by blast
    qed
    with a show ?thesis by blast
  next
    assume "\<exists>es1 idx gt es2. enumerate 0 gt_boxes = es1 @ (idx, gt) # es2 \<and> idx \<notin> M \<and>
      i = int idx \<and> v = compute_iou fl gt pred \<and> 0 < v \<and>
      (\<forall>(j, g) \<in> set es1. j \<notin> M \<longrightarrow> compute_iou fl g pred < v) \<and>
      (\<forall>(j, g) \<in> set es2. j \<notin> M \<longrightarrow> compute_iou fl g pred \<le> v)"
    then obtain es1 idx gt es2 where s: "enumerate 0 gt_boxes = es1 @ (idx, gt) # es2"
      "idx \<notin> M" "i = int idx" "v = compute_iou fl gt pred" "0 < v"
      "\<forall>(j, g) \<in> set es1. j \<notin> M \<longrightarrow> compute_iou fl g pred < v"
      "\<forall>(j, g) \<in> set es2. j \<notin> M \<longrightarrow> compute_iou fl g pred \<le> v"
      by blast
    from enumerate_split [OF s(1)]
    have en: "idx < length gt_boxes" "gt = gt_boxes ! idx"
      "\<forall>j < idx. (j, gt_boxes ! j) \<in> set es1"
      "\<forall>j. idx < j \<and> j < length gt_boxes \<longrightarrow> (j, gt_boxes ! j) \<in> set es2"
      by simp_all
    have v: "v = compute_iou fl (gt_boxes ! idx) pred" using s(4) en(2) by simp
    have "compute_iou fl (gt_boxes ! j) pred \<le> v \<and> (j < idx \<longrightarrow> compute_iou fl (gt_boxes ! j) pred < v)"
      if "j \<in> free gt_boxes M" for j
    proof -
      from that have j: "j < length gt_boxes" "j \<notin> M" by (simp_all add: free_iff)
      consider "j < idx" | "j = idx" | "idx < j" by linarith
      then show ?thesis
      proof cases
        case 1
        with en(3) have "(j, gt_boxes ! j) \<in> set es1" by simp
        with s(6) j(2) have "compute_iou fl (gt_boxes ! j) pred < v" by blast
        then show ?thesis by simp
      next
        case 2
        with v show ?thesis by simp
      next
        case 3
        with en(4) j(1) have "(j, gt_boxes ! j) \<in> set es2" by simp
        with s(7) j(2) have "compute_iou fl (gt_boxes ! j) pred \<le> v" by blast
        with 3 show ?thesis by simp
      qed
    qed
    then have "best_free fl gt_boxes M pred idx"
      using en(1) s(2) v by (simp add: best_free_def free_iff)
    with s(3,5) v show ?thesis by simp
  qed
qed

lemma best_free_unique:
  assumes "best_free fl gt_boxes M pred k" "best_free fl gt_boxes M pred k'"
  shows "k = k'"
proof (rule ccontr)
  assume "k \<noteq> k'"
  then consider "k < k'" | "k' < k" by linarith
  then show False
  proof cases
    case 1
    from assms(2) assms(1) 1 have "compute_iou fl (gt_boxes ! k) pred < compute_iou fl (gt_boxes ! k') pred"
      by (simp add: best_free_def)
    moreover from assms have "compute_iou fl (gt_boxes ! k') pred \<le> compute_iou fl (gt_boxes ! k) pred"
      by (simp add: best_free_def)
    ultimately show False by linarith
  next
    case 2
    from assms(1) assms(2) 2 have "compute_iou fl (gt_boxes ! k') pred < compute_iou fl (gt_boxes ! k) pred"
      by (simp add: best_free_def)
    moreover from assms have "compute_iou fl (gt_boxes ! k) pred \<le> compute_iou fl (gt_boxes ! k') pred"
      by (simp add: best_free_def)
    ultimately show False by linarith
  qed
qed

lemma match_step_claim:
  assumes "best_free fl gt_boxes M pred k"
    and "0 < compute_iou fl (gt_boxes ! k) pred" and "t \<le> compute_iou fl (gt_boxes ! k) pred"
  shows "match_loop fl gt_boxes t (pred # rest) (M, tp, fp) =
           match_loop fl gt_boxes t rest (insert k M, tp + 1, fp)"
proof -
  obtain v i where b: "best_loop fl M pred (enumerate 0 gt_boxes) (0, - 1) = (v, i)"
    by (cases "best_loop fl M pred (enumerate 0 gt_boxes) (0, - 1)")
  from best_loop_enumerate [OF b] have "0 \<le> i \<and> nat i = k \<and> v = compute_iou fl (gt_boxes ! k) pred"
  proof
    assume "i = - 1 \<and> v = 0 \<and> (\<forall>j \<in> free gt_boxes M. compute_iou fl (gt_boxes ! j) pred \<le> 0)"
    with assms(1,2) show ?thesis by (auto simp: best_free_def)
  next
    assume a: "0 \<le> i \<and> best_free fl gt_boxes M pred (nat i) \<and>
          v = compute_iou fl (gt_boxes ! nat i) pred \<and> 0 < v"
    then have "nat i = k" using assms(1) best_free_unique by blast
    with a show ?thesis by simp
  qed
  with b assms(3) show ?thesis by simp
qed

lemma match_step_miss:
  assumes "\<forall>j \<in> free gt_boxes M. compute_iou fl (gt_boxes ! j) pred \<le> 0 \<or>
             compute_iou fl (gt_boxes ! j) pred < t"
  shows "match_loop fl gt_boxes t (pred # rest) (M, tp, fp) =
           match_loop fl gt_boxes t rest (M, tp, fp + 1)"
proof -
  obtain v i where b: "best_loop fl M pred (enumerate 0 gt_boxes) (0, - 1) = (v, i)"
    by (cases "best_loop fl M pred (enumerate 0 gt_boxes) (0, - 1)")
  from best_loop_enumerate [OF b] have "\<not> (v \<ge> t \<and> i \<ge> 0)"
  proof
    assume "i = - 1 \<and> v = 0 \<and> (\<forall>j \<in> free gt_boxes M. compute_iou fl (gt_boxes ! j) pred \<le> 0)"
    then show ?thesis by simp
  next
    assume a: "0 \<le> i \<and> best_free fl gt_boxes M pred (nat i) \<and>
          v = compute_iou fl (gt_boxes ! nat i) pred \<and> 0 < v"
    then have "nat i \<in> free gt_boxes M" by (simp add: best_free_def)
    with assms a have "v < t" by auto
    then show ?thesis by simp
  qed
  with b show ?thesis by auto
qed

lemma match_step_cases:
  "(\<exists>k. best_free fl gt_boxes M pred k \<and> 0 < compute_iou fl (gt_boxes ! k) pred \<and>
         t \<le> compute_iou fl (gt_boxes ! k) pred) \<or>
   (\<forall>j \<in> free gt_boxes M. compute_iou fl (gt_boxes ! j) pred \<le> 0 \<or>
         compute_iou fl (gt_boxes ! j) pred < t)"
proof -
  obtain v i where b: "best_loop fl M pred (enumerate 0 gt_boxes) (0, - 1) = (v, i)"
    by (cases "best_loop fl M pred (enumerate 0 gt_boxes) (0, - 1)")
  from best_loop_enumerate [OF b] show ?thesis
  proof
    assume "i = - 1 \<and> v = 0 \<and> (\<forall>j \<in> free gt_boxes M. compute_iou fl (gt_boxes ! j) pred \<le> 0)"
    then show ?thesis by blast
  next
    assume a: "0 \<le> i \<and> best_free fl gt_boxes M pred (nat i) \<and>
          v = compute_iou fl (gt_boxes ! nat i) pred \<and> 0 < v"
    show ?thesis
    proof (cases "t \<le> v")
      case True
      with a show ?thesis by blast
    next
      case False
      have "compute_iou fl (gt_boxes ! j) pred < t" if "j \<in> free gt_boxes M" for j
      proof -
        from a that have "compute_iou fl (gt_boxes ! j) pred \<le> v" by (simp add: best_free_def)
        with False show ?thesis by linarith
      qed
      then show ?thesis by blast
    qed
  qed
qed


lemma match_loop_counts:
  assumes "match_loop fl gt_boxes t preds (M, tp, fp) = (M', tp', fp')"
    and "finite M" and "M \<subseteq> {..<length gt_boxes}"
  shows "finite M' \<and> M' \<subseteq> {..<length gt_boxes} \<and>
         int (card M') - int (card M) = tp' - tp \<and>
         tp' + fp' = tp + fp + int (length preds) \<and> tp \<le> tp' \<and> fp \<le> fp'"
  using assms
proof (induction preds arbitrary: M tp fp)
  case Nil
  then show ?case by simp
next
  case (Cons pred preds)
  obtain v i where b: "best_loop fl M pred (enumerate 0 gt_boxes) (0, - 1) = (v, i)"
    by (cases "best_loop fl M pred (enumerate 0 gt_boxes) (0, - 1)")
  note en = best_loop_enumerate [OF b]
  show ?case
  proof (cases "v \<ge> t \<and> i \<ge> 0")
    case True
    with en have "nat i \<in> free gt_boxes M" by (auto simp: best_free_def)
    then have i: "nat i < length gt_boxes" "nat i \<notin> M" by (simp_all add: free_iff)
    from Cons.prems(1) b True
    have run: "match_loop fl gt_boxes t preds (insert (nat i) M, tp + 1, fp) = (M', tp', fp')"
      by simp
    have "finite (insert (nat i) M)" "insert (nat i) M \<subseteq> {..<length gt_boxes}"
      using Cons.prems(2,3) i by auto
    from Cons.IH [OF run this] i Cons.prems(2) show ?thesis
      by (simp add: card_insert_disjoint)
  next
    case False
    from Cons.prems(1) b False
    have run: "match_loop fl gt_boxes t preds (M, tp, fp + 1) = (M', tp', fp')"
      by auto
    from Cons.IH [OF run Cons.prems(2,3)] show ?thesis by simp
  qed
qed

lemma length_sorted_by_confidence: "length (sorted_by_confidence preds) = length preds"
  by (simp add: sorted_by_confidence_def)

lemma match_predictions_counts:
  assumes "match_predictions fl gt_boxes preds t = (tp, fp, fn)"
  shows "tp + fn = int (length gt_boxes) \<and> tp + fp = int (length preds) \<and>
         0 \<le> tp \<and> 0 \<le> fp \<and> 0 \<le> fn"
proof (cases "gt_boxes = [] \<and> preds = []")
  case True
  with assms show ?thesis by (simp add: match_predictions_def)
next
  case False
  obtain M' tp' fp' where r:
    "match_loop fl gt_boxes t (sorted_by_confidence preds) ({}, 0, 0) = (M', tp', fp')"
    by (cases "match_loop fl gt_boxes t (sorted_by_confidence preds) ({}, 0, 0)")
  from match_loop_counts [OF r]
  have c: "finite M'" "M' \<subseteq> {..<length gt_boxes}" "int (card M') = tp'"
    "tp' + fp' = int (length preds)" "0 \<le> tp'" "0 \<le> fp'"
    by (simp_all add: length_sorted_by_confidence)
  from c(1,2) have "card M' \<le> length gt_boxes"
    using card_mono [of "{..<length gt_boxes}" M'] by simp
  moreover from assms False r have "tp = tp'" "fp = fp'" "fn = int (length gt_boxes) - int (card M')"
    by (auto simp: match_predictions_def)
  ultimately show ?thesis using c by simp
qed

lemma filter_key_distinct:
  "distinct (map f xs) \<Longrightarrow> k \<in> set xs \<Longrightarrow> filter (\<lambda>x. f k = f x) xs = [k]"
proof (induction xs)
  case Nil
  then show ?case by simp
next
  case (Cons x xs)
  show ?case
  proof (cases "k = x")
    case True
    with Cons.prems(1) have "\<forall>y \<in> set xs. f k \<noteq> f y" by auto
    then have "filter (\<lambda>x. f k = f x) xs = []" by (simp add: filter_empty_conv)
    with True show ?thesis by simp
  next
    case False
    with Cons.prems(2) have kin: "k \<in> set xs" by simp
    then have "f k \<in> f ` set xs" by simp
    moreover have "f x \<notin> f ` set xs" using Cons.prems(1) by simp
    ultimately have "f k \<noteq> f x" by metis
    with kin Cons show ?thesis by simp
  qed
qed

lemma sort_key_permutation:
  assumes "mset ys = mset xs" "distinct (map f xs)"
  shows "sort_key f ys = sort_key f xs"
proof (rule properties_for_sort_key)
  show "mset (sort_key f xs) = mset ys" using assms(1) by simp
  show "sorted (map f (sort_key f xs))" by simp
  fix k assume "k \<in> set (sort_key f xs)"
  then have k: "k \<in> set xs" by simp
  with assms(1) have k': "k \<in> set ys" by (metis mset_eq_setD)
  have "mset (map f ys) = mset (map f xs)" using assms(1) by simp
  with assms(2) have dy: "distinct (map f ys)" by (metis mset_eq_imp_distinct_iff)
  have "mset (map f (sort_key f xs)) = mset (map f xs)" by simp
  with assms(2) have ds: "distinct (map f (sort_key f xs))" by (metis mset_eq_imp_distinct_iff)
  from k have ks: "k \<in> set (sort_key f xs)" by simp
  show "filter (\<lambda>x. f k = f x) (sort_key f xs) = filter (\<lambda>x. f k = f x) ys"
    by (simp only: filter_key_distinct [OF ds ks] filter_key_distinct [OF dy k'])
qed

lemma sorted_by_confidence_permutation:
  assumes "mset preds' = mset preds" "distinct (map bb_confidence preds)"
  shows "sorted_by_confidence preds' = sorted_by_confidence preds"
proof -
  from assms(2) have "distinct (map (\<lambda>b. - bb_confidence b) preds)"
    by (simp add: distinct_map inj_on_def)
  from sort_key_permutation [OF assms(1) this] show ?thesis
    by (simp add: sorted_by_confidence_def)
qed

text \<open>
  C4: the counts of \<open>match_predictions\<close> satisfy TP + FN = |G| and TP + FP = |P|. The
  predictions are processed in the order of \<open>sorted_by_confidence\<close>, a permutation of the
  predictions in descending confidence that keeps predictions of equal confidence in
  their order, and the rest of the list is processed on the matched set that the
  prediction leaves. A prediction claims the first unmatched
  ground-truth box of the largest computed IoU, when that IoU is positive and reaches
  the threshold: the box joins the matched set and the prediction counts as a true
  positive. When no unmatched box has a positive IoU that reaches the threshold, the
  matched set stays and the prediction counts as a false positive. One of the two is
  always the case. So with distinct confidences the result does not depend on the order
  in which the predictions are given.
\<close>

theorem C4_greedy_matcher:
  "(match_predictions fl gt_boxes preds t = (tp, fp, fn) \<longrightarrow>
      tp + fn = int (length gt_boxes) \<and> tp + fp = int (length preds) \<and>
      0 \<le> tp \<and> 0 \<le> fp \<and> 0 \<le> fn) \<and>
   mset (sorted_by_confidence preds) = mset preds \<and>
   sorted (map (\<lambda>b. - bb_confidence b) (sorted_by_confidence preds)) \<and>
   filter (\<lambda>b. bb_confidence b = c) (sorted_by_confidence preds) =
     filter (\<lambda>b. bb_confidence b = c) preds \<and>
   (gt_boxes \<noteq> [] \<or> preds \<noteq> [] \<longrightarrow>
      match_predictions fl gt_boxes preds t =
        (case match_loop fl gt_boxes t (sorted_by_confidence preds) ({}, 0, 0) of
           (matched_gt, tp, fp) \<Rightarrow> (tp, fp, int (length gt_boxes) - int (card matched_gt)))) \<and>
   (best_free fl gt_boxes M pred k \<and> 0 < compute_iou fl (gt_boxes ! k) pred \<and>
    t \<le> compute_iou fl (gt_boxes ! k) pred \<longrightarrow>
      match_loop fl gt_boxes t (pred # rest) (M, tp0, fp0) =
        match_loop fl gt_boxes t rest (insert k M, tp0 + 1, fp0)) \<and>
   ((\<forall>j \<in> free gt_boxes M. compute_iou fl (gt_boxes ! j) pred \<le> 0 \<or>
                            compute_iou fl (gt_boxes ! j) pred < t) \<longrightarrow>
      match_loop fl gt_boxes t (pred # rest) (M, tp0, fp0) =
        match_loop fl gt_boxes t rest (M, tp0, fp0 + 1)) \<and>
   ((\<exists>k'. best_free fl gt_boxes M pred k' \<and> 0 < compute_iou fl (gt_boxes ! k') pred \<and>
          t \<le> compute_iou fl (gt_boxes ! k') pred) \<or>
    (\<forall>j \<in> free gt_boxes M. compute_iou fl (gt_boxes ! j) pred \<le> 0 \<or>
                           compute_iou fl (gt_boxes ! j) pred < t)) \<and>
   (mset preds' = mset preds \<and> distinct (map bb_confidence preds) \<longrightarrow>
      match_predictions fl gt_boxes preds' t = match_predictions fl gt_boxes preds t)"
proof (intro conjI)
  show "match_predictions fl gt_boxes preds t = (tp, fp, fn) \<longrightarrow>
      tp + fn = int (length gt_boxes) \<and> tp + fp = int (length preds) \<and>
      0 \<le> tp \<and> 0 \<le> fp \<and> 0 \<le> fn"
    using match_predictions_counts [of fl gt_boxes preds t tp fp fn] by blast
next
  show "mset (sorted_by_confidence preds) = mset preds"
    by (simp add: sorted_by_confidence_def)
next
  show "sorted (map (\<lambda>b. - bb_confidence b) (sorted_by_confidence preds))"
    by (simp add: sorted_by_confidence_def)
next
  show "filter (\<lambda>b. bb_confidence b = c) (sorted_by_confidence preds) =
     filter (\<lambda>b. bb_confidence b = c) preds"
    using sort_key_stable [of "\<lambda>b. - bb_confidence b" "- c" preds]
    by (simp add: sorted_by_confidence_def)
next
  show "gt_boxes \<noteq> [] \<or> preds \<noteq> [] \<longrightarrow>
      match_predictions fl gt_boxes preds t =
        (case match_loop fl gt_boxes t (sorted_by_confidence preds) ({}, 0, 0) of
           (matched_gt, tp, fp) \<Rightarrow> (tp, fp, int (length gt_boxes) - int (card matched_gt)))"
    by (auto simp: match_predictions_def)
next
  show "best_free fl gt_boxes M pred k \<and> 0 < compute_iou fl (gt_boxes ! k) pred \<and>
    t \<le> compute_iou fl (gt_boxes ! k) pred \<longrightarrow>
      match_loop fl gt_boxes t (pred # rest) (M, tp0, fp0) =
        match_loop fl gt_boxes t rest (insert k M, tp0 + 1, fp0)"
    using match_step_claim [of fl gt_boxes M pred k t rest tp0 fp0] by blast
next
  show "(\<forall>j \<in> free gt_boxes M. compute_iou fl (gt_boxes ! j) pred \<le> 0 \<or>
                            compute_iou fl (gt_boxes ! j) pred < t) \<longrightarrow>
      match_loop fl gt_boxes t (pred # rest) (M, tp0, fp0) =
        match_loop fl gt_boxes t rest (M, tp0, fp0 + 1)"
    using match_step_miss [of gt_boxes M fl pred t rest tp0 fp0] by blast
next
  show "(\<exists>k'. best_free fl gt_boxes M pred k' \<and> 0 < compute_iou fl (gt_boxes ! k') pred \<and>
          t \<le> compute_iou fl (gt_boxes ! k') pred) \<or>
    (\<forall>j \<in> free gt_boxes M. compute_iou fl (gt_boxes ! j) pred \<le> 0 \<or>
                           compute_iou fl (gt_boxes ! j) pred < t)"
    by (rule match_step_cases)
next
  show "mset preds' = mset preds \<and> distinct (map bb_confidence preds) \<longrightarrow>
      match_predictions fl gt_boxes preds' t = match_predictions fl gt_boxes preds t"
  proof
    assume a: "mset preds' = mset preds \<and> distinct (map bb_confidence preds)"
    then have s: "sorted_by_confidence preds' = sorted_by_confidence preds"
      using sorted_by_confidence_permutation [of preds' preds] by blast
    from a have "length preds' = length preds"
      by (metis mset_eq_length)
    then have "(preds' = []) = (preds = [])"
      by (cases preds'; cases preds) simp_all
    with s show "match_predictions fl gt_boxes preds' t = match_predictions fl gt_boxes preds t"
      by (simp add: match_predictions_def)
  qed
qed

text \<open>
  Two examples. The coordinates, the areas and the IoUs of their boxes are float32
  values, so that no operation of \<open>compute_iou\<close> rounds on them. In the first the
  prediction of confidence 0.9 takes the box that the prediction of confidence 0.5
  would have taken, whichever comes first in the list. In the second the prediction
  claims the second ground-truth box, the one of the larger IoU, not the first free one.
\<close>

lemma iou_values:
  "compute_iou (\<lambda>x. x) 
     \<lparr>bb_x1 = 0, bb_y1 = 0, bb_x2 = 8, bb_y2 = 8, bb_confidence = 1\<rparr> 
     \<lparr>bb_x1 = 0, bb_y1 = 0, bb_x2 = 8, bb_y2 = 6, bb_confidence = 9 / 10\<rparr> = 3 / 4"
  "compute_iou (\<lambda>x. x) 
     \<lparr>bb_x1 = 0, bb_y1 = 0, bb_x2 = 6, bb_y2 = 2, bb_confidence = 1\<rparr> 
     \<lparr>bb_x1 = 0, bb_y1 = 0, bb_x2 = 8, bb_y2 = 6, bb_confidence = 9 / 10\<rparr> = 1 / 4"
  "compute_iou (\<lambda>x. x) 
     \<lparr>bb_x1 = 0, bb_y1 = 0, bb_x2 = 8, bb_y2 = 8, bb_confidence = 1\<rparr> 
     \<lparr>bb_x1 = 0, bb_y1 = 2, bb_x2 = 8, bb_y2 = 8, bb_confidence = 1 / 2\<rparr> = 3 / 4"
  "compute_iou (\<lambda>x. x) 
     \<lparr>bb_x1 = 0, bb_y1 = 0, bb_x2 = 6, bb_y2 = 2, bb_confidence = 1\<rparr> 
     \<lparr>bb_x1 = 0, bb_y1 = 2, bb_x2 = 8, bb_y2 = 8, bb_confidence = 1 / 2\<rparr> = 0"
  "compute_iou (\<lambda>x. x) 
     \<lparr>bb_x1 = 0, bb_y1 = 0, bb_x2 = 8, bb_y2 = 4, bb_confidence = 1\<rparr> 
     \<lparr>bb_x1 = 0, bb_y1 = 0, bb_x2 = 8, bb_y2 = 8, bb_confidence = 9 / 10\<rparr> = 1 / 2"
  "compute_iou (\<lambda>x. x) 
     \<lparr>bb_x1 = 0, bb_y1 = 0, bb_x2 = 8, bb_y2 = 8, bb_confidence = 1\<rparr> 
     \<lparr>bb_x1 = 0, bb_y1 = 0, bb_x2 = 8, bb_y2 = 8, bb_confidence = 9 / 10\<rparr> = 1"
  "compute_iou (\<lambda>x. x) 
     \<lparr>bb_x1 = 0, bb_y1 = 0, bb_x2 = 8, bb_y2 = 4, bb_confidence = 1\<rparr> 
     \<lparr>bb_x1 = 0, bb_y1 = 0, bb_x2 = 8, bb_y2 = 4, bb_confidence = 1 / 2\<rparr> = 1"
  "compute_iou (\<lambda>x. x) 
     \<lparr>bb_x1 = 0, bb_y1 = 0, bb_x2 = 8, bb_y2 = 8, bb_confidence = 1\<rparr> 
     \<lparr>bb_x1 = 0, bb_y1 = 0, bb_x2 = 8, bb_y2 = 4, bb_confidence = 1 / 2\<rparr> = 1 / 2"
  by (simp_all add: compute_iou_def)

lemma match_examples:
  "match_predictions (\<lambda>x. x) [
     \<lparr>bb_x1 = 0, bb_y1 = 0, bb_x2 = 8, bb_y2 = 8, bb_confidence = 1\<rparr>, 
     \<lparr>bb_x1 = 0, bb_y1 = 0, bb_x2 = 6, bb_y2 = 2, bb_confidence = 1\<rparr>] [
     \<lparr>bb_x1 = 0, bb_y1 = 2, bb_x2 = 8, bb_y2 = 8, bb_confidence = 1 / 2\<rparr>, 
     \<lparr>bb_x1 = 0, bb_y1 = 0, bb_x2 = 8, bb_y2 = 6, bb_confidence = 9 / 10\<rparr>] (1 / 4) = (1, 1, 1)"
  "match_predictions (\<lambda>x. x) [
     \<lparr>bb_x1 = 0, bb_y1 = 0, bb_x2 = 8, bb_y2 = 4, bb_confidence = 1\<rparr>, 
     \<lparr>bb_x1 = 0, bb_y1 = 0, bb_x2 = 8, bb_y2 = 8, bb_confidence = 1\<rparr>] [
     \<lparr>bb_x1 = 0, bb_y1 = 0, bb_x2 = 8, bb_y2 = 8, bb_confidence = 9 / 10\<rparr>, 
     \<lparr>bb_x1 = 0, bb_y1 = 0, bb_x2 = 8, bb_y2 = 4, bb_confidence = 1 / 2\<rparr>] (3 / 4) = (2, 0, 0)"
  by (simp_all add: match_predictions_def sorted_by_confidence_def iou_values)

theorem C4_greedy_matcher_witness:
  "match_predictions (\<lambda>x. x) [
     \<lparr>bb_x1 = 0, bb_y1 = 0, bb_x2 = 8, bb_y2 = 8, bb_confidence = 1\<rparr>, 
     \<lparr>bb_x1 = 0, bb_y1 = 0, bb_x2 = 6, bb_y2 = 2, bb_confidence = 1\<rparr>] [
     \<lparr>bb_x1 = 0, bb_y1 = 2, bb_x2 = 8, bb_y2 = 8, bb_confidence = 1 / 2\<rparr>, 
     \<lparr>bb_x1 = 0, bb_y1 = 0, bb_x2 = 8, bb_y2 = 6, bb_confidence = 9 / 10\<rparr>] (1 / 4) = (1, 1, 1) \<and>
   match_predictions (\<lambda>x. x) [
     \<lparr>bb_x1 = 0, bb_y1 = 0, bb_x2 = 8, bb_y2 = 8, bb_confidence = 1\<rparr>, 
     \<lparr>bb_x1 = 0, bb_y1 = 0, bb_x2 = 6, bb_y2 = 2, bb_confidence = 1\<rparr>] [
     \<lparr>bb_x1 = 0, bb_y1 = 0, bb_x2 = 8, bb_y2 = 6, bb_confidence = 9 / 10\<rparr>, 
     \<lparr>bb_x1 = 0, bb_y1 = 2, bb_x2 = 8, bb_y2 = 8, bb_confidence = 1 / 2\<rparr>] (1 / 4) = (1, 1, 1) \<and>
   match_predictions (\<lambda>x. x) [
     \<lparr>bb_x1 = 0, bb_y1 = 0, bb_x2 = 8, bb_y2 = 4, bb_confidence = 1\<rparr>, 
     \<lparr>bb_x1 = 0, bb_y1 = 0, bb_x2 = 8, bb_y2 = 8, bb_confidence = 1\<rparr>] [
     \<lparr>bb_x1 = 0, bb_y1 = 0, bb_x2 = 8, bb_y2 = 8, bb_confidence = 9 / 10\<rparr>, 
     \<lparr>bb_x1 = 0, bb_y1 = 0, bb_x2 = 8, bb_y2 = 4, bb_confidence = 1 / 2\<rparr>] (3 / 4) = (2, 0, 0) \<and>
   match_loop (\<lambda>x. x) [
     \<lparr>bb_x1 = 0, bb_y1 = 0, bb_x2 = 8, bb_y2 = 4, bb_confidence = 1\<rparr>, 
     \<lparr>bb_x1 = 0, bb_y1 = 0, bb_x2 = 8, bb_y2 = 8, bb_confidence = 1\<rparr>] (3 / 4) [
     \<lparr>bb_x1 = 0, bb_y1 = 0, bb_x2 = 8, bb_y2 = 8, bb_confidence = 9 / 10\<rparr>, 
     \<lparr>bb_x1 = 0, bb_y1 = 0, bb_x2 = 8, bb_y2 = 4, bb_confidence = 1 / 2\<rparr>] ({}, 0, 0) =
     match_loop (\<lambda>x. x) [
     \<lparr>bb_x1 = 0, bb_y1 = 0, bb_x2 = 8, bb_y2 = 4, bb_confidence = 1\<rparr>, 
     \<lparr>bb_x1 = 0, bb_y1 = 0, bb_x2 = 8, bb_y2 = 8, bb_confidence = 1\<rparr>] (3 / 4) [
     \<lparr>bb_x1 = 0, bb_y1 = 0, bb_x2 = 8, bb_y2 = 4, bb_confidence = 1 / 2\<rparr>] ({1}, 1, 0) \<and>
   match_loop (\<lambda>x. x) [
     \<lparr>bb_x1 = 0, bb_y1 = 0, bb_x2 = 8, bb_y2 = 8, bb_confidence = 1\<rparr>, 
     \<lparr>bb_x1 = 0, bb_y1 = 0, bb_x2 = 6, bb_y2 = 2, bb_confidence = 1\<rparr>] (1 / 4) [
     \<lparr>bb_x1 = 0, bb_y1 = 2, bb_x2 = 8, bb_y2 = 8, bb_confidence = 1 / 2\<rparr>] ({0}, 1, 0) =
     match_loop (\<lambda>x. x) [
     \<lparr>bb_x1 = 0, bb_y1 = 0, bb_x2 = 8, bb_y2 = 8, bb_confidence = 1\<rparr>, 
     \<lparr>bb_x1 = 0, bb_y1 = 0, bb_x2 = 6, bb_y2 = 2, bb_confidence = 1\<rparr>] (1 / 4) [] ({0}, 1, 1)"
proof -
  have perm: "match_predictions (\<lambda>x. x) [
     \<lparr>bb_x1 = 0, bb_y1 = 0, bb_x2 = 8, bb_y2 = 8, bb_confidence = 1\<rparr>, 
     \<lparr>bb_x1 = 0, bb_y1 = 0, bb_x2 = 6, bb_y2 = 2, bb_confidence = 1\<rparr>] [
     \<lparr>bb_x1 = 0, bb_y1 = 0, bb_x2 = 8, bb_y2 = 6, bb_confidence = 9 / 10\<rparr>, 
     \<lparr>bb_x1 = 0, bb_y1 = 2, bb_x2 = 8, bb_y2 = 8, bb_confidence = 1 / 2\<rparr>] (1 / 4) =
              match_predictions (\<lambda>x. x) [
     \<lparr>bb_x1 = 0, bb_y1 = 0, bb_x2 = 8, bb_y2 = 8, bb_confidence = 1\<rparr>, 
     \<lparr>bb_x1 = 0, bb_y1 = 0, bb_x2 = 6, bb_y2 = 2, bb_confidence = 1\<rparr>] [
     \<lparr>bb_x1 = 0, bb_y1 = 2, bb_x2 = 8, bb_y2 = 8, bb_confidence = 1 / 2\<rparr>, 
     \<lparr>bb_x1 = 0, bb_y1 = 0, bb_x2 = 8, bb_y2 = 6, bb_confidence = 9 / 10\<rparr>] (1 / 4)"
    using C4_greedy_matcher
      [where fl = "\<lambda>x. x" and gt_boxes = "[
     \<lparr>bb_x1 = 0, bb_y1 = 0, bb_x2 = 8, bb_y2 = 8, bb_confidence = 1\<rparr>, 
     \<lparr>bb_x1 = 0, bb_y1 = 0, bb_x2 = 6, bb_y2 = 2, bb_confidence = 1\<rparr>]" and preds = "[
     \<lparr>bb_x1 = 0, bb_y1 = 2, bb_x2 = 8, bb_y2 = 8, bb_confidence = 1 / 2\<rparr>, 
     \<lparr>bb_x1 = 0, bb_y1 = 0, bb_x2 = 8, bb_y2 = 6, bb_confidence = 9 / 10\<rparr>]"
         and preds' = "[
     \<lparr>bb_x1 = 0, bb_y1 = 0, bb_x2 = 8, bb_y2 = 6, bb_confidence = 9 / 10\<rparr>, 
     \<lparr>bb_x1 = 0, bb_y1 = 2, bb_x2 = 8, bb_y2 = 8, bb_confidence = 1 / 2\<rparr>]" and t = "1 / 4"]
    by simp
  have best: "best_free (\<lambda>x. x) [
     \<lparr>bb_x1 = 0, bb_y1 = 0, bb_x2 = 8, bb_y2 = 4, bb_confidence = 1\<rparr>, 
     \<lparr>bb_x1 = 0, bb_y1 = 0, bb_x2 = 8, bb_y2 = 8, bb_confidence = 1\<rparr>] {} 
     \<lparr>bb_x1 = 0, bb_y1 = 0, bb_x2 = 8, bb_y2 = 8, bb_confidence = 9 / 10\<rparr> 1"
    by (simp add: best_free_def free_def iou_values)
  have claim: "match_loop (\<lambda>x. x) [
     \<lparr>bb_x1 = 0, bb_y1 = 0, bb_x2 = 8, bb_y2 = 4, bb_confidence = 1\<rparr>, 
     \<lparr>bb_x1 = 0, bb_y1 = 0, bb_x2 = 8, bb_y2 = 8, bb_confidence = 1\<rparr>] (3 / 4) [
     \<lparr>bb_x1 = 0, bb_y1 = 0, bb_x2 = 8, bb_y2 = 8, bb_confidence = 9 / 10\<rparr>, 
     \<lparr>bb_x1 = 0, bb_y1 = 0, bb_x2 = 8, bb_y2 = 4, bb_confidence = 1 / 2\<rparr>] ({}, 0, 0) =
     match_loop (\<lambda>x. x) [
     \<lparr>bb_x1 = 0, bb_y1 = 0, bb_x2 = 8, bb_y2 = 4, bb_confidence = 1\<rparr>, 
     \<lparr>bb_x1 = 0, bb_y1 = 0, bb_x2 = 8, bb_y2 = 8, bb_confidence = 1\<rparr>] (3 / 4) [
     \<lparr>bb_x1 = 0, bb_y1 = 0, bb_x2 = 8, bb_y2 = 4, bb_confidence = 1 / 2\<rparr>] ({1}, 1, 0)"
    using C4_greedy_matcher
      [where fl = "\<lambda>x. x" and gt_boxes = "[
     \<lparr>bb_x1 = 0, bb_y1 = 0, bb_x2 = 8, bb_y2 = 4, bb_confidence = 1\<rparr>, 
     \<lparr>bb_x1 = 0, bb_y1 = 0, bb_x2 = 8, bb_y2 = 8, bb_confidence = 1\<rparr>]" and M = "{}" and pred = "
     \<lparr>bb_x1 = 0, bb_y1 = 0, bb_x2 = 8, bb_y2 = 8, bb_confidence = 9 / 10\<rparr>" and k = 1
         and t = "3 / 4" and rest = "[
     \<lparr>bb_x1 = 0, bb_y1 = 0, bb_x2 = 8, bb_y2 = 4, bb_confidence = 1 / 2\<rparr>]" and ?tp0.0 = 0 and ?fp0.0 = 0] best
    by (simp add: iou_values)
  have miss: "match_loop (\<lambda>x. x) [
     \<lparr>bb_x1 = 0, bb_y1 = 0, bb_x2 = 8, bb_y2 = 8, bb_confidence = 1\<rparr>, 
     \<lparr>bb_x1 = 0, bb_y1 = 0, bb_x2 = 6, bb_y2 = 2, bb_confidence = 1\<rparr>] (1 / 4) [
     \<lparr>bb_x1 = 0, bb_y1 = 2, bb_x2 = 8, bb_y2 = 8, bb_confidence = 1 / 2\<rparr>] ({0}, 1, 0) =
     match_loop (\<lambda>x. x) [
     \<lparr>bb_x1 = 0, bb_y1 = 0, bb_x2 = 8, bb_y2 = 8, bb_confidence = 1\<rparr>, 
     \<lparr>bb_x1 = 0, bb_y1 = 0, bb_x2 = 6, bb_y2 = 2, bb_confidence = 1\<rparr>] (1 / 4) [] ({0}, 1, 1)"
    using C4_greedy_matcher
      [where fl = "\<lambda>x. x" and gt_boxes = "[
     \<lparr>bb_x1 = 0, bb_y1 = 0, bb_x2 = 8, bb_y2 = 8, bb_confidence = 1\<rparr>, 
     \<lparr>bb_x1 = 0, bb_y1 = 0, bb_x2 = 6, bb_y2 = 2, bb_confidence = 1\<rparr>]" and M = "{0}" and pred = "
     \<lparr>bb_x1 = 0, bb_y1 = 2, bb_x2 = 8, bb_y2 = 8, bb_confidence = 1 / 2\<rparr>"
         and t = "1 / 4" and rest = "[]" and ?tp0.0 = 1 and ?fp0.0 = 0]
    by (simp add: free_def iou_values)
  from perm claim miss match_examples show ?thesis
    by simp
qed

section \<open>Properties of the pipeline orchestrator\<close>


lemma try_body_raises:
  assumes "jobs jid = Some job" "try_body w s now jobs jid = Inl (jobs', e)"
  shows "\<exists>job'. jobs' jid = Some job' \<and> pages job' = pages job \<and> summary job' = summary job"
  using assms
  by (auto simp: try_body_def update_job_def mark_completed_def Let_def
      split: option.splits sum.splits prod.splits)

lemma try_body_returns:
  assumes "jobs jid = Some job" "try_body w s now jobs jid = Inr jobs'"
  shows "\<exists>job' page_images page_results summary_counts.
           prepare_pages w = Inr page_images \<and>
           pages_loop w s page_images ([], [''signature'' \<mapsto> 0, ''stamp'' \<mapsto> 0, ''qr'' \<mapsto> 0]) =
             Inr (page_results, summary_counts) \<and>
           jobs' jid = Some job' \<and> status job' = completed \<and> completed_at job' = Some now \<and>
           pages job' = page_results \<and> summary job' = summary_counts"
  using assms
  by (auto simp: try_body_def update_job_def mark_completed_def Let_def
      split: option.splits sum.splits prod.splits)

lemma first_page_processed:
  "pages_loop two_page_world settings [''page_1.png'']
     ([], [''signature'' \<mapsto> 0, ''stamp'' \<mapsto> 0, ''qr'' \<mapsto> 0]) =
     Inr ([\<lparr>page_name = ''page_1.png'', source_path = ''page_1.png'',
            annotated_path = Some ''annotated/page_1.png'',
            heatmap_path = Some ''heatmaps/page_1.png'',
            detections = [\<lparr>label = ''stamp'', confidence = 9 / 10, bbox = (0, 0, 200, 200)\<rparr>],
            qr_codes = [], requires_review = False\<rparr>],
          [''signature'' \<mapsto> 0, ''stamp'' \<mapsto> 1, ''qr'' \<mapsto> 0])"
  by (simp add: page_step_def two_page_world_def settings_def filter_signature_overlaps_def
      analyze_review_need_def Let_def fun_upd_twist)

lemma run_fails:
  "snd (process_job two_page_world settings 9 [''j1'' \<mapsto> new_job ''j1'' 0] ''j1'') =
     Some (Raised ''detector failed'')"
  by (simp add: process_job_def get_def mark_running_def mark_failed_def try_body_def
      update_job_def page_step_def two_page_world_def settings_def filter_signature_overlaps_def
      analyze_review_need_def Let_def new_job_def)

lemma run_registry:
  "map_option status (fst (process_job two_page_world settings 9 [''j1'' \<mapsto> new_job ''j1'' 0] ''j1'') ''j1'') = Some failed"
  "map_option pages (fst (process_job two_page_world settings 9 [''j1'' \<mapsto> new_job ''j1'' 0] ''j1'') ''j1'') = Some []"
  by (simp_all add: process_job_def get_def mark_running_def mark_failed_def try_body_def
      update_job_def page_step_def two_page_world_def settings_def filter_signature_overlaps_def
      analyze_review_need_def Let_def new_job_def)

text \<open>
  C2 (as stated): the results of the pages processed before the failure stay attached
  to the failed job. In the run on two pages whose detector fails on the second page,
  the first page is processed to a complete \<open>PageResult\<close>, the run raises, the job is
  failed, and its page list is empty: the result of the first page is not attached.
\<close>

theorem C2_partial_pages_discarded:
  "pages_loop two_page_world settings [''page_1.png'']
     ([], [''signature'' \<mapsto> 0, ''stamp'' \<mapsto> 0, ''qr'' \<mapsto> 0]) =
     Inr ([\<lparr>page_name = ''page_1.png'', source_path = ''page_1.png'',
            annotated_path = Some ''annotated/page_1.png'',
            heatmap_path = Some ''heatmaps/page_1.png'',
            detections = [\<lparr>label = ''stamp'', confidence = 9 / 10, bbox = (0, 0, 200, 200)\<rparr>],
            qr_codes = [], requires_review = False\<rparr>],
          [''signature'' \<mapsto> 0, ''stamp'' \<mapsto> 1, ''qr'' \<mapsto> 0]) \<and>
   snd (process_job two_page_world settings 9 [''j1'' \<mapsto> new_job ''j1'' 0] ''j1'') = Some (Raised ''detector failed'') \<and>
   map_option status (fst (process_job two_page_world settings 9 [''j1'' \<mapsto> new_job ''j1'' 0] ''j1'') ''j1'') = Some failed \<and>
   map_option pages (fst (process_job two_page_world settings 9 [''j1'' \<mapsto> new_job ''j1'' 0] ''j1'') ''j1'') = Some []"
  using first_page_processed run_fails run_registry by simp

text \<open>
  C2 (amended): when a run of \<open>process_job\<close> on a registered job ends with an exception,
  the job is failed with the message of the exception and the completion time, and its
  page list and summary are the ones it had before the run (empty for a new job): the
  results of the pages processed before the failure are not attached. The page results
  are attached only when every page has been processed, together with the summary and
  the transition to completed.
\<close>

theorem C2_failed_run_attaches_nothing:
  "(jobs jid = Some job \<and> process_job w s now jobs jid = (jobs', Some e) \<longrightarrow>
      (\<exists>job'. jobs' jid = Some job' \<and> status job' = failed \<and> error job' = Some (str_exn e) \<and>
         completed_at job' = Some now \<and> pages job' = pages job \<and> summary job' = summary job)) \<and>
   (jobs jid = Some job \<and> process_job w s now jobs jid = (jobs', None) \<longrightarrow>
      (\<exists>job' page_images page_results summary_counts.
         prepare_pages w = Inr page_images \<and>
         pages_loop w s page_images ([], [''signature'' \<mapsto> 0, ''stamp'' \<mapsto> 0, ''qr'' \<mapsto> 0]) =
           Inr (page_results, summary_counts) \<and>
         jobs' jid = Some job' \<and> status job' = completed \<and> completed_at job' = Some now \<and>
         pages job' = page_results \<and> summary job' = summary_counts))"
proof (intro conjI impI)
  assume a: "jobs jid = Some job \<and> process_job w s now jobs jid = (jobs', Some e)"
  define jobs1 where "jobs1 = jobs(jid \<mapsto> job\<lparr>status := running\<rparr>)"
  have r: "mark_running jobs jid = Inr jobs1" and p1: "jobs1 jid = Some (job\<lparr>status := running\<rparr>)"
    using a by (simp_all add: mark_running_def jobs1_def)
  have pj: "process_job w s now jobs jid =
              (case try_body w s now jobs1 jid of
                 Inr jobs2 \<Rightarrow> (jobs2, None)
               | Inl (jobs2, exc) \<Rightarrow>
                   (case mark_failed jobs2 jid (str_exn exc) now of
                      Inl e \<Rightarrow> (jobs2, Some e)
                    | Inr jobs3 \<Rightarrow> (jobs3, Some exc)))"
    using a r by (simp add: process_job_def get_def)
  obtain jobs2 where t: "try_body w s now jobs1 jid = Inl (jobs2, e)"
    and f: "mark_failed jobs2 jid (str_exn e) now = Inr jobs'"
  proof (cases "try_body w s now jobs1 jid")
    case (Inr jobs2)
    with pj a show ?thesis by simp
  next
    case (Inl p)
    obtain jobs2 exc where p: "p = (jobs2, exc)" by (cases p)
    from try_body_raises [of jobs1 jid "job\<lparr>status := running\<rparr>" w s now jobs2 exc] p1 Inl p
    obtain job2 where "jobs2 jid = Some job2" by auto
    then obtain jobs3 where m: "mark_failed jobs2 jid (str_exn exc) now = Inr jobs3"
      by (simp add: mark_failed_def)
    with pj a Inl p have "exc = e" "jobs3 = jobs'" by simp_all
    with m Inl p that show ?thesis by simp
  qed
  from try_body_raises [of jobs1 jid "job\<lparr>status := running\<rparr>" w s now jobs2 e] p1 t
  obtain job2 where
    j2: "jobs2 jid = Some job2" "pages job2 = pages job" "summary job2 = summary job"
    by auto
  from f j2 show "\<exists>job'. jobs' jid = Some job' \<and> status job' = failed \<and>
         error job' = Some (str_exn e) \<and>
         completed_at job' = Some now \<and> pages job' = pages job \<and> summary job' = summary job"
    by (auto simp: mark_failed_def)
next
  assume a: "jobs jid = Some job \<and> process_job w s now jobs jid = (jobs', None)"
  define jobs1 where "jobs1 = jobs(jid \<mapsto> job\<lparr>status := running\<rparr>)"
  have r: "mark_running jobs jid = Inr jobs1" and p1: "jobs1 jid = Some (job\<lparr>status := running\<rparr>)"
    using a by (simp_all add: mark_running_def jobs1_def)
  from a r have t: "try_body w s now jobs1 jid = Inr jobs'"
    by (auto simp: process_job_def get_def split: sum.splits prod.splits option.splits)
  from try_body_returns [of jobs1 jid "job\<lparr>status := running\<rparr>" w s now jobs'] p1 t
  show "\<exists>job' page_images page_results summary_counts.
         prepare_pages w = Inr page_images \<and>
         pages_loop w s page_images ([], [''signature'' \<mapsto> 0, ''stamp'' \<mapsto> 0, ''qr'' \<mapsto> 0]) =
           Inr (page_results, summary_counts) \<and>
         jobs' jid = Some job' \<and> status job' = completed \<and> completed_at job' = Some now \<and>
         pages job' = page_results \<and> summary job' = summary_counts"
    by simp
qed

theorem C2_failed_run_attaches_nothing_witness:
  "\<exists>job'. fst (process_job two_page_world settings 9 [''j1'' \<mapsto> new_job ''j1'' 0] ''j1'') ''j1'' = Some job' \<and> status job' = failed \<and>
      error job' = Some ''detector failed'' \<and> completed_at job' = Some 9 \<and> pages job' = []"
proof -
  have present: "[''j1'' \<mapsto> new_job ''j1'' 0] ''j1'' = Some (new_job ''j1'' 0)"
    by simp
  have run: "process_job two_page_world settings 9 [''j1'' \<mapsto> new_job ''j1'' 0] ''j1'' = (fst (process_job two_page_world settings 9 [''j1'' \<mapsto> new_job ''j1'' 0] ''j1''), Some (Raised ''detector failed''))"
    using run_fails by (simp add: prod_eq_iff)
  from C2_failed_run_attaches_nothing
    [where jobs = "[''j1'' \<mapsto> new_job ''j1'' 0]" and jid = "''j1''" and job = "new_job ''j1'' 0"
       and w = two_page_world and s = settings and now = 9
       and jobs' = "fst (process_job two_page_world settings 9 [''j1'' \<mapsto> new_job ''j1'' 0] ''j1'')" and e = "Raised ''detector failed''"]
    present run
  have "\<exists>job'. fst (process_job two_page_world settings 9 [''j1'' \<mapsto> new_job ''j1'' 0] ''j1'') ''j1'' = Some job' \<and> status job' = failed \<and>
      error job' = Some (str_exn (Raised ''detector failed'')) \<and> completed_at job' = Some 9 \<and>
      pages job' = pages (new_job ''j1'' 0) \<and> summary job' = summary (new_job ''j1'' 0)"
    by blast
  then show ?thesis by (auto simp: new_job_def)
qed

end
